theory Spec2Isabelle
  imports Complex_Main "HOL-Library.Word" "HOL-Library.Sublist"
begin

unbundle bit_operations_syntax

section \<open>Bytes and strings\<close>

text \<open>
  A Go \<open>[]byte\<close> is a list of 8-bit words; a Go \<open>string\<close> used as text (header names,
  header values, media types, URLs) is a \<open>string\<close>, whose characters are bytes.
\<close>

type_synonym byte = "8 word"

text \<open>\<open>strings.HasPrefix(s, prefix)\<close> and \<open>strings.Contains(s, substr)\<close>.\<close>

definition HasPrefix :: "string \<Rightarrow> string \<Rightarrow> bool" where
  "HasPrefix s p = prefix p s"

fun Contains :: "string \<Rightarrow> string \<Rightarrow> bool" where
  "Contains [] sub = (sub = [])"
| "Contains (c # cs) sub = (prefix sub (c # cs) \<or> Contains cs sub)"

section \<open>64-bit floating point division of small counts\<close>

text \<open>
  \<open>isTextData\<close> ends in \<open>float64(textChars)/float64(min(len(data), 512)) > 0.7\<close>.
  Both operands are integers between 0 and 512, so their conversion to \<open>float64\<close> is
  exact; the quotient is the exact quotient rounded to a 53-bit significand, ties to even
  (IEEE 754 binary64, the only rounding mode Go uses), and the constant \<open>0.7\<close> is the
  binary64 value nearest to 7/10. The quotients that occur lie in [1/512, 1] or are 0,
  far from the subnormal and overflow ranges, so a double is modelled by the rational it
  denotes.
\<close>

definition rne :: "rat \<Rightarrow> int" where
  "rne x = (let f = \<lfloor>x\<rfloor>; r = x - of_int f
            in if r < 1 / 2 then f
               else if 1 / 2 < r then f + 1
               else if even f then f else f + 1)"

text \<open>
  \<open>norm_shift k n\<close> is the number of doublings that bring \<open>k / n\<close> (with \<open>0 < k \<le> n\<close>)
  into [1, 2): the negated binary exponent of the quotient.
\<close>

function norm_shift :: "nat \<Rightarrow> nat \<Rightarrow> nat" where
  "norm_shift k n = (if k = 0 \<or> n \<le> k then 0 else Suc (norm_shift (2 * k) n))"
  by pat_completeness auto
termination
  by (relation "measure (\<lambda>(k, n). n - k)") auto

declare norm_shift.simps [simp del]

definition f64_div :: "nat \<Rightarrow> nat \<Rightarrow> rat" where
  "f64_div k n =
     (if k = 0 then 0
      else let p = 52 + norm_shift k n
           in of_int (rne (of_nat k * 2 ^ p / of_nat n)) / 2 ^ p)"

definition f64_0_7 :: rat where
  "f64_0_7 = of_int (rne (7 / 10 * 2 ^ 53)) / 2 ^ 53"

section \<open>Content classifier (database.go)\<close>

text \<open>Go's helper \<open>min\<close> on \<open>int\<close>, here on lengths.\<close>

definition min_int :: "nat \<Rightarrow> nat \<Rightarrow> nat" where
  "min_int a b = (if a < b then a else b)"

definition isPrintableByte :: "byte \<Rightarrow> bool" where
  "isPrintableByte b = (b = 0x09 \<or> b = 0x0A \<or> b = 0x0D \<or> (0x20 \<le> b \<and> b \<le> 0x7E))"

text \<open>The counting loop over \<open>data[:min(len(data), 512)]\<close>.\<close>

fun countTextChars :: "byte list \<Rightarrow> nat \<Rightarrow> nat" where
  "countTextChars [] textChars = textChars"
| "countTextChars (b # bs) textChars =
     countTextChars bs (if isPrintableByte b then textChars + 1 else textChars)"

definition isTextualContentType :: "string \<Rightarrow> bool" where
  "isTextualContentType contentType =
     (HasPrefix contentType ''text/'' \<or>
      Contains contentType ''application/json'' \<or>
      Contains contentType ''application/xml'' \<or>
      Contains contentType ''application/javascript'' \<or>
      Contains contentType ''application/xhtml+xml'')"

definition isTextData :: "byte list \<Rightarrow> string \<Rightarrow> bool" where
  "isTextData data contentType =
     (if isTextualContentType contentType then True
      else if length data = 0 then True
      else let textChars = countTextChars (take (min_int (length data) 512) data) 0
           in f64_0_7 < f64_div textChars (min_int (length data) 512))"

section \<open>HTTP headers\<close>

text \<open>
  \<open>http.Header\<close> is \<open>map[string][]string\<close>. \<open>Get\<close>, \<open>Set\<close> and \<open>Del\<close> first bring the
  key into canonical MIME form; every key the program passes (\<open>Content-Encoding\<close>,
  \<open>Content-Length\<close>, \<open>Content-Type\<close>) is already canonical, as are the keys of a header
  read from the wire, so the key is used as it is.
\<close>

type_synonym Header = "string \<rightharpoonup> string list"

definition Header_Get :: "Header \<Rightarrow> string \<Rightarrow> string" where
  "Header_Get h key = (case h key of None \<Rightarrow> [] | Some [] \<Rightarrow> [] | Some (v # _) \<Rightarrow> v)"

definition Header_Set :: "Header \<Rightarrow> string \<Rightarrow> string \<Rightarrow> Header" where
  "Header_Set h key v = h(key \<mapsto> [v])"

definition Header_Del :: "Header \<Rightarrow> string \<Rightarrow> Header" where
  "Header_Del h key = h(key := None)"

text \<open>
  The record stores headers as a JSON string. \<open>json.Marshal\<close> of a header multimap
  cannot fail and \<open>json.Unmarshal\<close> reads the multimap back, so the text produced by
  \<open>HeadersToJSON\<close> is kept as the multimap it denotes: a snapshot, which later changes to
  the live header do not reach. \<open>NotJSON\<close> is a string that \<open>json.Unmarshal\<close> rejects;
  the zero value \<open>""\<close> of a Go string is one.
\<close>

datatype headers_json = JSONText Header | NotJSON string

definition HeadersToJSON :: "Header \<Rightarrow> headers_json" where
  "HeadersToJSON headers = JSONText headers"

definition getContentTypeFromHeaders :: "headers_json \<Rightarrow> string" where
  "getContentTypeFromHeaders headersJSON =
     (case headersJSON of
        NotJSON _ \<Rightarrow> []
      | JSONText headers \<Rightarrow> Header_Get headers ''Content-Type'')"

section \<open>Body codec (decompressGzip)\<close>

text \<open>
  \<open>decompressGzip\<close> wraps \<open>gzip.NewReader\<close> and \<open>ioutil.ReadAll\<close> from the standard
  library. The inflater is a parameter: it returns the inflated payload or the error of the
  reader.
\<close>

datatype gzip_error = ErrHeader | ErrChecksum | ErrUnexpectedEOF

type_synonym gzip_codec = "byte list \<Rightarrow> gzip_error + byte list"

definition decompressGzip :: "gzip_codec \<Rightarrow> byte list \<Rightarrow> gzip_error + byte list" where
  "decompressGzip gunzip data = gunzip data"

text \<open>
  For concrete evaluations: the inflater restricted to one stream, the gzip encoding of
  the two bytes \<open>hi\<close>; every other input used below is not a gzip stream at all.
\<close>

definition gzip_hi :: "byte list" where
  "gzip_hi = [31, 139, 8, 0, 0, 0, 0, 0, 2, 3, 203, 200, 4, 0, 172, 42, 147, 216, 2, 0, 0, 0]"

definition gunzip_sample :: gzip_codec where
  "gunzip_sample data = (if data = gzip_hi then Inr [104, 105] else Inl ErrHeader)"

section \<open>Exchange records and the proxy state\<close>

record RequestLog =
  ID :: int
  Timestamp :: int
  Method :: string
  URL :: string
  RequestHeaders :: headers_json
  RequestBody :: "byte list"
  RequestBodySize :: int
  IsRequestBodyText :: bool
  StatusCode :: int
  ResponseHeaders :: headers_json
  ResponseBody :: "byte list"
  ResponseBodySize :: int
  IsResponseBodyText :: bool

text \<open>The zero value of the struct.\<close>

definition zeroRequestLog :: RequestLog where
  "zeroRequestLog =
     \<lparr>ID = 0, Timestamp = 0, Method = [], URL = [], RequestHeaders = NotJSON [],
      RequestBody = [], RequestBodySize = 0, IsRequestBodyText = False, StatusCode = 0,
      ResponseHeaders = NotJSON [], ResponseBody = [], ResponseBodySize = 0,
      IsResponseBodyText = False\<rparr>"

datatype io_error = ReadError

text \<open>
  A body is a single-use stream; what matters of it is the outcome of reading it to the
  end: the bytes, or a read error.
\<close>

record Request =
  req_Method :: string
  req_URL :: string
  req_Header :: Header
  req_Body :: "io_error + byte list"

record Response =
  resp_StatusCode :: int
  resp_Header :: Header
  resp_Body :: "io_error + byte list"

datatype http_error = HttpError int string

datatype log_event =
    LogRequestReadError
  | LogRequestDecompressError
  | LogNoRequestLogInContext
  | LogResponseReadError
  | LogResponseDecompressError
  | LogChannelFull
  | LogPrepareFailed
  | LogInsertFailed
  | LogAddedColumn string string
  | LogWALFailed
  | LogDatabaseInitialized

text \<open>
  The goroutine started in \<open>main\<close> before the proxy listens,
  \<open>for logEntry := range requestLogChan { LogRequest(logEntry) }\<close>, is in one of three
  places: parked on the receive (the channel is then empty), inside \<open>LogRequest\<close> with
  the record it received, or between the two, about to receive.
\<close>

datatype consumer_state = Parked | Busy RequestLog | Ready

text \<open>
  The process-wide state of the proxy: the recording flag, the buffered channel
  \<open>requestLogChan\<close> (its pending elements, oldest first), the consumer goroutine and
  the operational log.
\<close>

record ProxyState =
  IsRecording :: bool
  requestLogChan :: "RequestLog list"
  consumer :: consumer_state
  opLog :: "log_event list"

definition chanCapacity :: nat where
  "chanCapacity = 100"

definition logEvent :: "log_event \<Rightarrow> ProxyState \<Rightarrow> ProxyState" where
  "logEvent e st = st\<lparr>opLog := opLog st @ [e]\<rparr>"

section \<open>strconv.Itoa\<close>

definition digitChar :: "nat \<Rightarrow> char" where
  "digitChar d = char_of (48 + d)"

fun natDigits :: "nat \<Rightarrow> string" where
  "natDigits n = (if n < 10 then [digitChar n] else natDigits (n div 10) @ [digitChar (n mod 10)])"

declare natDigits.simps [simp del]

definition Itoa :: "int \<Rightarrow> string" where
  "Itoa i = (if i < 0 then CHR ''-'' # natDigits (nat (- i)) else natDigits (nat i))"

section \<open>Capture interceptor (ProxyHandler.ServeHTTP, proxy.ModifyResponse)\<close>

text \<open>
  \<open>ProxyHandler.ServeHTTP\<close>, up to the call of the reverse proxy. The result is the
  error answered to the client, or the request handed to the reverse proxy (its body
  restored from the captured bytes) together with the record placed in its context.
  \<open>now\<close> is \<open>time.Now()\<close>.
\<close>

definition ServeHTTP ::
  "gzip_codec \<Rightarrow> int \<Rightarrow> Request \<Rightarrow> ProxyState \<Rightarrow> ProxyState \<times> (http_error + Request \<times> RequestLog)" where
  "ServeHTTP gunzip now r st =
     (case req_Body r of
        Inl err \<Rightarrow>
          (logEvent LogRequestReadError st, Inl (HttpError 500 ''Error reading request body''))
      | Inr requestBody \<Rightarrow>
          let r1 = r\<lparr>req_Body := Inr requestBody\<rparr>;
              (decompressedReqBody, st1) =
                (if Header_Get (req_Header r1) ''Content-Encoding'' = ''gzip''
                 then (case decompressGzip gunzip requestBody of
                         Inl err \<Rightarrow> (requestBody, logEvent LogRequestDecompressError st)
                       | Inr decompressed \<Rightarrow> (decompressed, st))
                 else (requestBody, st));
              reqLog = zeroRequestLog
                \<lparr>Timestamp := now,
                 Method := req_Method r1,
                 URL := req_URL r1,
                 RequestHeaders := HeadersToJSON (req_Header r1),
                 RequestBody := decompressedReqBody\<rparr>
          in (st1, Inr (r1, reqLog)))"

text \<open>
  The non-blocking send \<open>select { case requestLogChan <- *reqLog: default: log... }\<close>
  on a channel made with capacity 100. A send succeeds when a receiver is parked on the
  channel, which then takes the record directly, or when the buffer has room; otherwise
  the \<open>default\<close> branch writes the drop line.
\<close>

definition trySend :: "RequestLog \<Rightarrow> ProxyState \<Rightarrow> ProxyState" where
  "trySend entry st =
     (if consumer st = Parked
      then st\<lparr>consumer := Busy entry\<rparr>
      else if length (requestLogChan st) < chanCapacity
      then st\<lparr>requestLogChan := requestLogChan st @ [entry]\<rparr>
      else logEvent LogChannelFull st)"

text \<open>The records the consumer holds or will receive, in the order it will log them.\<close>

definition pending :: "ProxyState \<Rightarrow> RequestLog list" where
  "pending st = (case consumer st of Busy e \<Rightarrow> [e] | _ \<Rightarrow> []) @ requestLogChan st"

text \<open>
  \<open>proxy.ModifyResponse\<close>. \<open>resp\<close> is the upstream response as the transport hands
  it over; \<open>ctx\<close> is the record found in the request context, if any.
  An \<open>Inl\<close> result is the error returned to the reverse proxy, which then answers the
  client itself; an \<open>Inr\<close> result carries the response as the reverse proxy goes on to
  deliver it to the client, the record, and the new state.
\<close>

definition ModifyResponse ::
  "gzip_codec \<Rightarrow> RequestLog option \<Rightarrow> Response \<Rightarrow> ProxyState
     \<Rightarrow> (io_error \<times> ProxyState) + (Response \<times> RequestLog option \<times> ProxyState)" where
  "ModifyResponse gunzip ctx resp st =
     (case ctx of
        None \<Rightarrow> Inr (resp, None, logEvent LogNoRequestLogInContext st)
      | Some reqLog0 \<Rightarrow>
          let reqLog1 = reqLog0\<lparr>StatusCode := resp_StatusCode resp\<rparr>;
              reqLog2 = reqLog1\<lparr>ResponseHeaders := HeadersToJSON (resp_Header resp)\<rparr>
          in case resp_Body resp of
               Inl err \<Rightarrow> Inl (err, logEvent LogResponseReadError st)
             | Inr body0 \<Rightarrow>
                 let (body, header, st1) =
                       (if Header_Get (resp_Header resp) ''Content-Encoding'' = ''gzip''
                        then (case decompressGzip gunzip body0 of
                                Inl err \<Rightarrow>
                                  (body0, resp_Header resp, logEvent LogResponseDecompressError st)
                              | Inr decompressedBody \<Rightarrow>
                                  (decompressedBody,
                                   Header_Set (Header_Del (resp_Header resp) ''Content-Encoding'')
                                     ''Content-Length'' (Itoa (int (length decompressedBody))),
                                   st))
                        else (body0, resp_Header resp, st));
                     reqLog3 = reqLog2\<lparr>ResponseBody := body\<rparr>;
                     resp1 = resp\<lparr>resp_Header := header, resp_Body := Inr body\<rparr>;
                     st2 = (if IsRecording st1 then trySend reqLog3 st1 else st1)
                 in Inr (resp1, Some reqLog3, st2))"

text \<open>Reading a result of \<open>ModifyResponse\<close>.\<close>

type_synonym modify_result = "(io_error \<times> ProxyState) + (Response \<times> RequestLog option \<times> ProxyState)"

definition delivered :: "modify_result \<Rightarrow> Response option" where
  "delivered res = (case res of Inl e \<Rightarrow> None | Inr (resp, entry, st) \<Rightarrow> Some resp)"

definition recorded :: "modify_result \<Rightarrow> RequestLog option" where
  "recorded res = (case res of Inl e \<Rightarrow> None | Inr (resp, entry, st) \<Rightarrow> entry)"

definition stateAfter :: "modify_result \<Rightarrow> ProxyState" where
  "stateAfter res = (case res of Inl (e, st) \<Rightarrow> st | Inr (resp, entry, st) \<Rightarrow> st)"

text \<open>A gzip-encoded upstream response and an idle proxy, for concrete evaluations.\<close>

definition gzipResponse :: Response where
  "gzipResponse =
     \<lparr>resp_StatusCode = 200,
      resp_Header = [''Content-Encoding'' \<mapsto> [''gzip''], ''Content-Length'' \<mapsto> [''22''],
                     ''Content-Type'' \<mapsto> [''text/plain'']],
      resp_Body = Inr gzip_hi\<rparr>"

definition idleProxy :: ProxyState where
  "idleProxy = \<lparr>IsRecording = True, requestLogChan = [], consumer = Parked, opLog = []\<rparr>"

text \<open>The same response with a body that is not a gzip stream.\<close>

definition badGzipResponse :: Response where
  "badGzipResponse =
     \<lparr>resp_StatusCode = 200,
      resp_Header = [''Content-Encoding'' \<mapsto> [''gzip''], ''Content-Length'' \<mapsto> [''4''],
                     ''Content-Type'' \<mapsto> [''text/plain'']],
      resp_Body = Inr [111, 111, 112, 115]\<rparr>"

text \<open>A gzip-encoded inbound request.\<close>

definition gzipRequest :: Request where
  "gzipRequest =
     \<lparr>req_Method = ''POST'', req_URL = ''/upload'',
      req_Header = [''Content-Encoding'' \<mapsto> [''gzip''], ''Content-Length'' \<mapsto> [''22'']],
      req_Body = Inr gzip_hi\<rparr>"

section \<open>Storage engine (database.go)\<close>

text \<open>
  The store is an SQLite file reached through \<open>database/sql\<close>. Its state is the schema
  (for each table, its columns in order, each a name and a declared type), the rows of
  table \<open>requests\<close> in insertion order, and the last row id handed out by
  \<open>AUTOINCREMENT\<close>.
\<close>

type_synonym column = "string \<times> string"

record Database =
  db_tables :: "string \<rightharpoonup> column list"
  db_rows :: "RequestLog list"
  db_lastID :: int

text \<open>
  The statements the program issues. Whether the engine carries a statement out or
  reports an error (a full disk, a locked or corrupt file, a closed handle) is not decided
  by the program: it is the parameter \<open>drv\<close>, true when the statement succeeds.
\<close>

datatype sql_value = SqlText string | SqlInt int

datatype sql_cond = UrlLike | TimestampGe | TimestampLe

datatype sql_stmt =
    StmtOpen
  | StmtCreateTable
  | StmtBegin
  | StmtTableInfo string
  | StmtAddColumn string string string
  | StmtCommit
  | StmtPragmaWAL
  | StmtPrepareInsert
  | StmtExecInsert RequestLog
  | StmtCount "sql_cond list" "sql_value list"
  | StmtSelect "sql_cond list" "sql_value list"

type_synonym driver = "sql_stmt \<Rightarrow> bool"

subsection \<open>Insertion and the pipeline consumer\<close>

text \<open>The effect of a successful \<open>INSERT\<close>: the row gets the next id.\<close>

definition insertRow :: "Database \<Rightarrow> RequestLog \<Rightarrow> Database" where
  "insertRow db logEntry =
     db\<lparr>db_rows := db_rows db @ [logEntry\<lparr>ID := db_lastID db + 1\<rparr>],
        db_lastID := db_lastID db + 1\<rparr>"

text \<open>The first four assignments of \<open>LogRequest\<close>: sizes and text flags from the bodies.\<close>

definition populate :: "RequestLog \<Rightarrow> RequestLog" where
  "populate logEntry =
     (let e1 = logEntry\<lparr>RequestBodySize := int (length (RequestBody logEntry))\<rparr>;
          e2 = e1\<lparr>IsRequestBodyText :=
                    isTextData (RequestBody e1) (getContentTypeFromHeaders (RequestHeaders e1))\<rparr>;
          e3 = e2\<lparr>ResponseBodySize := int (length (ResponseBody e2))\<rparr>;
          e4 = e3\<lparr>IsResponseBodyText :=
                    isTextData (ResponseBody e3) (getContentTypeFromHeaders (ResponseHeaders e3))\<rparr>
      in e4)"

definition LogRequest ::
  "driver \<Rightarrow> RequestLog \<Rightarrow> Database \<times> log_event list \<Rightarrow> Database \<times> log_event list" where
  "LogRequest drv logEntry s =
     (let (db, lg) = s; e = populate logEntry
      in if \<not> drv StmtPrepareInsert then (db, lg @ [LogPrepareFailed])
         else if \<not> drv (StmtExecInsert e) then (db, lg @ [LogInsertFailed])
         else (insertRow db e, lg))"

text \<open>The inserts of a list of records, one \<open>LogRequest\<close> each, in order.\<close>

fun consume ::
  "driver \<Rightarrow> RequestLog list \<Rightarrow> Database \<times> log_event list \<Rightarrow> Database \<times> log_event list" where
  "consume drv [] s = s"
| "consume drv (logEntry # rest) s = consume drv rest (LogRequest drv logEntry s)"

text \<open>
  One step of the consumer goroutine: it finishes the \<open>LogRequest\<close> it is in, or it
  receives (the oldest pending record, or it parks when the channel is empty); parked, it
  stays so until a send wakes it.
\<close>

definition consumerStep ::
  "driver \<Rightarrow> ProxyState \<times> Database \<times> log_event list
     \<Rightarrow> ProxyState \<times> Database \<times> log_event list" where
  "consumerStep drv c =
     (let (st, s) = c
      in case consumer st of
           Busy logEntry \<Rightarrow> (st\<lparr>consumer := Ready\<rparr>, LogRequest drv logEntry s)
         | Ready \<Rightarrow>
             (case requestLogChan st of
                [] \<Rightarrow> (st\<lparr>consumer := Parked\<rparr>, s)
              | logEntry # rest \<Rightarrow> (st\<lparr>consumer := Busy logEntry, requestLogChan := rest\<rparr>, s))
         | Parked \<Rightarrow> (st, s))"

text \<open>The number of steps after which the consumer, left alone, is parked again.\<close>

definition drainSteps :: "ProxyState \<Rightarrow> nat" where
  "drainSteps st =
     (case consumer st of
        Busy logEntry \<Rightarrow> 2 * length (requestLogChan st) + 2
      | Ready \<Rightarrow> 2 * length (requestLogChan st) + 1
      | Parked \<Rightarrow> 0)"

subsection \<open>Schema migration\<close>

definition baseColumns :: "column list" where
  "baseColumns =
     [(''id'', ''INTEGER''), (''timestamp'', ''DATETIME''), (''method'', ''TEXT''),
      (''url'', ''TEXT''), (''request_headers'', ''TEXT''), (''request_body'', ''BLOB''),
      (''status_code'', ''INTEGER''), (''response_headers'', ''TEXT''),
      (''response_body'', ''BLOB'')]"

text \<open>\<open>CREATE TABLE IF NOT EXISTS requests (...)\<close>, when it succeeds.\<close>

definition createTable :: "(string \<rightharpoonup> column list) \<Rightarrow> (string \<rightharpoonup> column list)" where
  "createTable tables =
     (case tables ''requests'' of
        Some cols \<Rightarrow> tables
      | None \<Rightarrow> tables(''requests'' \<mapsto> baseColumns))"

text \<open>
  A migration in progress: the schema as the open transaction sees it, the statements
  issued so far, and the log lines written so far. \<open>log.Fatalf\<close> ends the process; it is
  the \<open>Inl\<close> result, which keeps the statements issued up to that point.
\<close>

record Tx =
  tx_tables :: "string \<rightharpoonup> column list"
  tx_trace :: "sql_stmt list"
  tx_log :: "log_event list"

datatype fatal = Fatal string

definition issue :: "sql_stmt \<Rightarrow> Tx \<Rightarrow> Tx" where
  "issue stmt tx = tx\<lparr>tx_trace := tx_trace tx @ [stmt]\<rparr>"

text \<open>The loop over the rows of \<open>PRAGMA table_info\<close>, one row per column.\<close>

fun columnExists :: "column list \<Rightarrow> string \<Rightarrow> bool" where
  "columnExists [] columnName = False"
| "columnExists (col # cols) columnName =
     (if fst col = columnName then True else columnExists cols columnName)"

text \<open>\<open>PRAGMA table_info\<close> of a table that does not exist has no rows.\<close>

definition tableInfo :: "(string \<rightharpoonup> column list) \<Rightarrow> string \<Rightarrow> column list" where
  "tableInfo tables tableName = (case tables tableName of None \<Rightarrow> [] | Some cols \<Rightarrow> cols)"

definition addColumnIfNotExists ::
  "driver \<Rightarrow> string \<Rightarrow> string \<Rightarrow> string \<Rightarrow> Tx \<Rightarrow> (fatal \<times> Tx) + Tx" where
  "addColumnIfNotExists drv tableName columnName columnType tx =
     (let tx1 = issue (StmtTableInfo tableName) tx
      in if \<not> drv (StmtTableInfo tableName)
         then Inl (Fatal ''Failed to query table info'', tx1)
         else if columnExists (tableInfo (tx_tables tx1) tableName) columnName
         then Inr tx1
         else
           let tx2 = issue (StmtAddColumn tableName columnName columnType) tx1
           in (case tx_tables tx2 tableName of
                 None \<Rightarrow> Inl (Fatal ''Failed to add column'', tx2)
               | Some cols \<Rightarrow>
                   if \<not> drv (StmtAddColumn tableName columnName columnType)
                   then Inl (Fatal ''Failed to add column'', tx2)
                   else Inr (tx2\<lparr>tx_tables := (tx_tables tx2)(tableName \<mapsto> cols @ [(columnName, columnType)]),
                                 tx_log := tx_log tx2 @ [LogAddedColumn columnName tableName]\<rparr>)))"

text \<open>Sequencing of steps that may end the process.\<close>

definition andThen :: "(fatal \<times> Tx) + Tx \<Rightarrow> (Tx \<Rightarrow> (fatal \<times> Tx) + Tx) \<Rightarrow> (fatal \<times> Tx) + Tx" where
  "andThen r f = (case r of Inl e \<Rightarrow> Inl e | Inr tx \<Rightarrow> f tx)"

text \<open>
  \<open>InitDB\<close>. The result tells whether the process was ended by \<open>log.Fatalf\<close>
  (\<open>Some\<close> the error) or the function returned (\<open>None\<close>), and gives the store as it is
  on disk afterwards, the statements issued and the log. \<open>CREATE TABLE\<close> runs before
  the transaction begins and stays when the process ends later; the column additions reach
  the disk only with a successful commit.
\<close>

record InitResult =
  ir_fatal :: "fatal option"
  ir_db :: Database
  ir_trace :: "sql_stmt list"
  ir_log :: "log_event list"

definition InitDB :: "driver \<Rightarrow> Database \<Rightarrow> InitResult" where
  "InitDB drv db =
     (if \<not> drv StmtOpen
      then \<lparr>ir_fatal = Some (Fatal ''Failed to open database''), ir_db = db,
            ir_trace = [StmtOpen], ir_log = []\<rparr>
      else if \<not> drv StmtCreateTable
      then \<lparr>ir_fatal = Some (Fatal ''Failed to create table''), ir_db = db,
            ir_trace = [StmtOpen, StmtCreateTable], ir_log = []\<rparr>
      else
        let db1 = db\<lparr>db_tables := createTable (db_tables db)\<rparr>
        in if \<not> drv StmtBegin
           then \<lparr>ir_fatal = Some (Fatal ''Failed to begin transaction for schema migration''),
                 ir_db = db1, ir_trace = [StmtOpen, StmtCreateTable, StmtBegin], ir_log = []\<rparr>
           else
             let tx0 = \<lparr>tx_tables = db_tables db1,
                        tx_trace = [StmtOpen, StmtCreateTable, StmtBegin], tx_log = []\<rparr>;
                 r = andThen (andThen (andThen
                       (addColumnIfNotExists drv ''requests'' ''request_body_size'' ''INTEGER'' tx0)
                       (addColumnIfNotExists drv ''requests'' ''is_request_body_text'' ''BOOLEAN''))
                       (addColumnIfNotExists drv ''requests'' ''response_body_size'' ''INTEGER''))
                       (addColumnIfNotExists drv ''requests'' ''is_response_body_text'' ''BOOLEAN'')
             in (case r of
                   Inl (e, tx) \<Rightarrow>
                     \<lparr>ir_fatal = Some e, ir_db = db1, ir_trace = tx_trace tx, ir_log = tx_log tx\<rparr>
                 | Inr tx \<Rightarrow>
                     if \<not> drv StmtCommit
                     then \<lparr>ir_fatal = Some (Fatal ''Failed to commit schema migration''),
                           ir_db = db1, ir_trace = tx_trace tx @ [StmtCommit], ir_log = tx_log tx\<rparr>
                     else
                       \<lparr>ir_fatal = None,
                        ir_db = db1\<lparr>db_tables := tx_tables tx\<rparr>,
                        ir_trace = tx_trace tx @ [StmtCommit, StmtPragmaWAL],
                        ir_log = (if drv StmtPragmaWAL then tx_log tx else tx_log tx @ [LogWALFailed])
                                 @ [LogDatabaseInitialized]\<rparr>))"

text \<open>
  Reading a trace: the \<open>ALTER TABLE\<close> statements, and the statements that
  \<open>addColumnIfNotExists\<close> issues on the transaction.
\<close>

fun isAlter :: "sql_stmt \<Rightarrow> bool" where
  "isAlter (StmtAddColumn t c ty) = True"
| "isAlter stmt = False"

fun onTransaction :: "sql_stmt \<Rightarrow> bool" where
  "onTransaction (StmtAddColumn t c ty) = True"
| "onTransaction (StmtTableInfo t) = True"
| "onTransaction stmt = False"

text \<open>The test \<open>addColumnIfNotExists\<close> makes, on a schema.\<close>

definition hasColumn :: "(string \<rightharpoonup> column list) \<Rightarrow> string \<Rightarrow> string \<Rightarrow> bool" where
  "hasColumn tables tableName columnName = columnExists (tableInfo tables tableName) columnName"

text \<open>An empty store and a driver on which every statement succeeds, for concrete evaluations.\<close>

definition emptyDatabase :: Database where
  "emptyDatabase = \<lparr>db_tables = Map.empty, db_rows = [], db_lastID = 0\<rparr>"

definition healthy :: driver where
  "healthy stmt = True"

section \<open>List query (getRequests)\<close>

subsection \<open>strconv.Atoi\<close>




subsection \<open>Go integer arithmetic\<close>



subsection \<open>The two SQL statements and what the engine makes of them\<close>









subsection \<open>The handler\<close>














section \<open>Replay engine (replayRequest): the response\<close>

text \<open>\<open>string(bodyBytes)\<close>: the same bytes, as a string.\<close>

definition bytesToString :: "byte list \<Rightarrow> string" where
  "bytesToString bs = map (\<lambda>b. char_of (unat b)) bs"

text \<open>\<open>base64.StdEncoding.EncodeToString\<close> (RFC 4648, with padding).\<close>

definition base64Alphabet :: string where
  "base64Alphabet = ''ABCDEFGHIJKLMNOPQRSTUVWXYZabcdefghijklmnopqrstuvwxyz0123456789+/''"

definition sextet :: "nat \<Rightarrow> char" where
  "sextet n = base64Alphabet ! (n mod 64)"

fun EncodeToString :: "byte list \<Rightarrow> string" where
  "EncodeToString [] = []"
| "EncodeToString [a] =
     (let v = unat a * 65536
      in [sextet (v div 262144), sextet (v div 4096), CHR ''='', CHR ''=''])"
| "EncodeToString [a, b] =
     (let v = unat a * 65536 + unat b * 256
      in [sextet (v div 262144), sextet (v div 4096), sextet (v div 64), CHR ''=''])"
| "EncodeToString (a # b # c # rest) =
     (let v = unat a * 65536 + unat b * 256 + unat c
      in [sextet (v div 262144), sextet (v div 4096), sextet (v div 64), sextet v]
         @ EncodeToString rest)"

text \<open>The local \<open>isText\<close> of the handler, a function of the response's \<open>Content-Type\<close>.\<close>

definition replayIsText :: "string \<Rightarrow> bool" where
  "replayIsText contentType =
     (HasPrefix contentType ''text/'' \<or>
      Contains contentType ''json'' \<or>
      Contains contentType ''xml'' \<or>
      Contains contentType ''javascript'')"

text \<open>
  From the response of the replayed request (its headers and the bytes read from its
  body) to the \<open>body\<close> field of the JSON answer.
\<close>

definition replayBodyBytes :: "gzip_codec \<Rightarrow> Header \<Rightarrow> byte list \<Rightarrow> byte list" where
  "replayBodyBytes gunzip header respBody =
     (if Header_Get header ''Content-Encoding'' = ''gzip''
      then (case decompressGzip gunzip respBody of
              Inl err \<Rightarrow> respBody
            | Inr decompressedBody \<Rightarrow> decompressedBody)
      else respBody)"

definition replayResponseBody :: "gzip_codec \<Rightarrow> Header \<Rightarrow> byte list \<Rightarrow> string" where
  "replayResponseBody gunzip header respBody =
     (let bodyBytes = replayBodyBytes gunzip header respBody;
          contentType = Header_Get header ''Content-Type'';
          isText = replayIsText contentType
      in if isText then bytesToString bodyBytes else EncodeToString bodyBytes)"

section \<open>The floating point comparison is the exact one\<close>

text \<open>
  Rounding moves a value by at most half a unit in the last place, and two distinct
  fractions with denominators 10 and at most 512 differ by at least 1/5120; so the
  rounded quotient exceeds the rounded constant exactly when the exact quotient exceeds
  7/10. At a tie (\<open>k / n = 7 / 10\<close>) both sides round to the same double.
\<close>

lemma rne_err: "\<bar>of_int (rne x) - x\<bar> \<le> 1 / 2"
proof -
  define f where "f = \<lfloor>x\<rfloor>"
  define r where "r = x - of_int f"
  have r: "0 \<le> r" "r < 1" unfolding r_def f_def by linarith+
  have x: "x = of_int f + r" by (simp add: r_def)
  have rn: "rne x = (if r < 1 / 2 then f else if 1 / 2 < r then f + 1
                     else if even f then f else f + 1)"
    by (simp add: rne_def Let_def f_def r_def)
  have d: "of_int (rne x) - x = of_int (rne x) - of_int f - r"
    by (simp add: r_def)
  have "rne x = f \<and> r \<le> 1 / 2 \<or> rne x = f + 1 \<and> 1 / 2 \<le> r"
    using rn by (auto split: if_splits)
  then show ?thesis
    unfolding d using r by (auto simp: abs_if)
qed

lemma round_err: "\<bar>of_int (rne x) / 2 ^ p - x / 2 ^ p\<bar> \<le> 1 / 2 ^ Suc p"
proof -
  have "of_int (rne x) / 2 ^ p - x / 2 ^ p = (of_int (rne x) - x) / 2 ^ p"
    by (simp add: diff_divide_distrib)
  then have "\<bar>of_int (rne x) / 2 ^ p - x / 2 ^ p\<bar> = \<bar>of_int (rne x) - x\<bar> / 2 ^ p"
    by (simp add: abs_divide)
  also have "\<dots> \<le> (1 / 2) / 2 ^ p"
    by (rule divide_right_mono [OF rne_err]) simp
  finally show ?thesis by simp
qed

lemma f64_div_err:
  assumes "0 < k" "0 < n"
  shows "\<bar>f64_div k n - of_nat k / of_nat n\<bar> \<le> 1 / 9007199254740992"
proof -
  define p where "p = 52 + norm_shift k n"
  define x :: rat where "x = of_nat k * 2 ^ p / of_nat n"
  have f: "f64_div k n = of_int (rne x) / 2 ^ p"
    using assms by (simp add: f64_div_def Let_def p_def x_def)
  have q: "of_nat k / of_nat n = x / 2 ^ p"
    by (simp add: x_def)
  have "\<bar>f64_div k n - of_nat k / of_nat n\<bar> \<le> 1 / 2 ^ Suc p"
    unfolding f q by (rule round_err)
  also have "\<dots> \<le> 1 / 2 ^ 53"
  proof (rule divide_left_mono)
    show "(2 :: rat) ^ 53 \<le> 2 ^ Suc p"
      by (rule power_increasing) (simp_all add: p_def)
  qed simp_all
  finally show ?thesis by simp
qed

lemma f64_0_7_err: "\<bar>f64_0_7 - 7 / 10\<bar> \<le> 1 / 18014398509481984"
proof -
  have "\<bar>of_int (rne (7 / 10 * 2 ^ 53)) / 2 ^ 53 - (7 / 10 * 2 ^ 53) / 2 ^ 53\<bar> \<le> (1 :: rat) / 2 ^ Suc 53"
    by (rule round_err)
  then show ?thesis by (simp add: f64_0_7_def)
qed

lemma f64_0_7_value: "f64_0_7 = 6305039478318694 / 2 ^ 53"
proof -
  have "\<lfloor>7 / 10 * 2 ^ 53 :: rat\<rfloor> = 6305039478318694"
    by (rule floor_unique) simp_all
  then show ?thesis
    by (simp add: f64_0_7_def rne_def Let_def)
qed

lemma f64_div_tie:
  assumes "7 * n = 10 * k" "0 < n"
  shows "f64_div k n = f64_0_7"
proof -
  have k: "0 < k" "k < n" "n \<le> 2 * k" using assms by auto
  have "norm_shift k n = Suc (norm_shift (2 * k) n)"
    using k by (subst norm_shift.simps) simp
  also have "norm_shift (2 * k) n = 0"
    using k by (subst norm_shift.simps) simp
  finally have s: "norm_shift k n = 1" by simp
  have "(of_nat (7 * n) :: rat) = of_nat (10 * k)" using assms by simp
  then have "(of_nat k :: rat) / of_nat n = 7 / 10"
    using assms(2) by (simp add: field_simps)
  then have e: "(of_nat k :: rat) * 2 ^ 53 / of_nat n = 7 / 10 * 2 ^ 53"
    by simp
  have "f64_div k n = of_int (rne (of_nat k * 2 ^ 53 / of_nat n)) / 2 ^ 53"
    using k s by (simp add: f64_div_def Let_def)
  also have "\<dots> = of_int (rne (7 / 10 * 2 ^ 53)) / 2 ^ 53"
    by (simp only: e)
  finally show ?thesis by (simp only: f64_0_7_def)
qed

lemma f64_threshold:
  assumes "0 < n" "n \<le> 512" "k \<le> n"
  shows "f64_0_7 < f64_div k n \<longleftrightarrow> 7 * n < 10 * k"
proof -
  have c: "7 / 10 - 1 / 18014398509481984 \<le> f64_0_7" "f64_0_7 \<le> 7 / 10 + 1 / 18014398509481984"
    using f64_0_7_err by linarith+
  have n: "(1 :: rat) / 5120 \<le> 1 / (10 * of_nat n)"
  proof (rule divide_left_mono)
    have "(of_nat n :: rat) \<le> of_nat 512" using assms(2) by (simp only: of_nat_le_iff)
    then show "10 * (of_nat n :: rat) \<le> 5120" by simp
  qed (use assms in simp_all)
  consider "k = 0" | "0 < k" "7 * n < 10 * k" | "0 < k" "10 * k < 7 * n" | "7 * n = 10 * k"
    by linarith
  then show ?thesis
  proof cases
    case 1
    have "0 < f64_0_7" using c by linarith
    then show ?thesis using 1 assms by (simp add: f64_div_def)
  next
    case 2
    have q: "of_nat k / of_nat n - 1 / 9007199254740992 \<le> f64_div k n"
      using f64_div_err [OF 2(1) assms(1)] by linarith
    have "7 * n + 1 \<le> 10 * k" using 2 by simp
    then have "(of_nat (7 * n + 1) :: rat) \<le> of_nat (10 * k)"
      by (simp only: of_nat_le_iff)
    then have "(7 * of_nat n + 1 :: rat) \<le> 10 * of_nat k" by simp
    then have "1 / (10 * of_nat n) \<le> (10 * of_nat k - 7 * of_nat n :: rat) / (10 * of_nat n)"
      by (intro divide_right_mono) simp_all
    moreover have "(10 * of_nat k - 7 * of_nat n :: rat) / (10 * of_nat n) = of_nat k / of_nat n - 7 / 10"
      using assms(1) by (simp add: field_simps)
    ultimately have "7 / 10 + 1 / (10 * of_nat n) \<le> (of_nat k :: rat) / of_nat n"
      by linarith
    then have "7 / 10 + 1 / 5120 \<le> (of_nat k :: rat) / of_nat n" using n by linarith
    then have "f64_0_7 < f64_div k n" using q c by linarith
    then show ?thesis using 2 by simp
  next
    case 3
    have q: "f64_div k n \<le> of_nat k / of_nat n + 1 / 9007199254740992"
      using f64_div_err [OF 3(1) assms(1)] by linarith
    have "10 * k + 1 \<le> 7 * n" using 3 by simp
    then have "(of_nat (10 * k + 1) :: rat) \<le> of_nat (7 * n)"
      by (simp only: of_nat_le_iff)
    then have "(10 * of_nat k + 1 :: rat) \<le> 7 * of_nat n" by simp
    then have "1 / (10 * of_nat n) \<le> (7 * of_nat n - 10 * of_nat k :: rat) / (10 * of_nat n)"
      by (intro divide_right_mono) simp_all
    moreover have "(7 * of_nat n - 10 * of_nat k :: rat) / (10 * of_nat n) = 7 / 10 - of_nat k / of_nat n"
      using assms(1) by (simp add: field_simps)
    ultimately have "(of_nat k :: rat) / of_nat n \<le> 7 / 10 - 1 / (10 * of_nat n)"
      by linarith
    then have "(of_nat k :: rat) / of_nat n \<le> 7 / 10 - 1 / 5120" using n by linarith
    then have "\<not> f64_0_7 < f64_div k n" using q c by linarith
    then show ?thesis using 3 by simp
  next
    case 4
    then show ?thesis using f64_div_tie [OF 4 assms(1)] by simp
  qed
qed


lemma countTextChars_filter:
  "countTextChars bs acc = acc + length (filter isPrintableByte bs)"
  by (induction bs arbitrary: acc) simp_all

lemma min_int_min: "min_int a b = min a b"
  by (simp add: min_int_def min_def)

lemma Contains_sublist: "Contains s sub = sublist sub s"
  by (induction s) (simp_all add: sublist_Cons_right)

lemma isTextualContentType_iff:
  "isTextualContentType ct \<longleftrightarrow>
     prefix ''text/'' ct \<or> sublist ''application/json'' ct \<or> sublist ''application/xml'' ct \<or>
     sublist ''application/javascript'' ct \<or> sublist ''application/xhtml+xml'' ct"
  by (simp only: isTextualContentType_def HasPrefix_def Contains_sublist)

lemma count_le_sample: "length (filter isPrintableByte (take 512 b)) \<le> min (length b) 512"
proof -
  have "length (filter isPrintableByte (take 512 b)) \<le> length (take 512 b)"
    by (rule length_filter_le)
  then show ?thesis by simp
qed

lemma ratio_iff:
  assumes "0 < n"
  shows "(7 / 10 :: rat) < of_nat k / of_nat n \<longleftrightarrow> 7 * n < 10 * k"
proof -
  have "(7 / 10 :: rat) < of_nat k / of_nat n \<longleftrightarrow> (7 * of_nat n :: rat) < 10 * of_nat k"
    using assms by (simp add: field_simps)
  also have "\<dots> \<longleftrightarrow> (of_nat (7 * n) :: rat) < of_nat (10 * k)"
    by simp
  also have "\<dots> \<longleftrightarrow> 7 * n < 10 * k"
    by (simp only: of_nat_less_iff)
  finally show ?thesis .
qed

lemma isTextData_heuristic:
  assumes "\<not> isTextualContentType ct" "b \<noteq> []"
  shows "isTextData b ct \<longleftrightarrow>
           (7 / 10 :: rat) < of_nat (length (filter isPrintableByte (take 512 b)))
                              / of_nat (min 512 (length b))"
proof -
  define n where "n = min (length b) 512"
  define k where "k = length (filter isPrintableByte (take 512 b))"
  have n: "0 < n" "n \<le> 512" using assms(2) by (simp_all add: n_def)
  have k: "k \<le> n" unfolding k_def n_def by (rule count_le_sample)
  have t: "take n b = take 512 b" by (simp add: n_def min_def)
  have "isTextData b ct \<longleftrightarrow> f64_0_7 < f64_div k n"
    using assms by (simp add: isTextData_def Let_def min_int_min countTextChars_filter
        n_def [symmetric] t k_def [symmetric])
  also have "\<dots> \<longleftrightarrow> 7 * n < 10 * k"
    by (rule f64_threshold [OF n k])
  also have "\<dots> \<longleftrightarrow> (7 / 10 :: rat) < of_nat k / of_nat n"
    by (rule ratio_iff [OF n(1), symmetric])
  finally show ?thesis by (simp add: k_def n_def min.commute)
qed

section \<open>Content classifier: the policy\<close>

text \<open>
  Claim C4. The classifier applies its policy in order. A declared media type of the
  textual family (it starts with \<open>text/\<close>, or contains \<open>application/json\<close>,
  \<open>application/xml\<close>, \<open>application/javascript\<close> or \<open>application/xhtml+xml\<close>) gives
  text, whatever the bytes; in particular \<open>text/plain\<close> gives text for every payload.
  Otherwise an empty payload is text. Otherwise the payload is text exactly when, among
  its first \<open>min 512 (length b)\<close> bytes, the fraction of bytes that are tab, line feed,
  carriage return or in the range 0x20 to 0x7E exceeds 7/10; the comparison the code makes
  in 64-bit floating point decides as the exact fraction does.
\<close>

theorem isTextData_policy:
  "isTextData b ct =
     (if prefix ''text/'' ct \<or> sublist ''application/json'' ct \<or> sublist ''application/xml'' ct \<or>
         sublist ''application/javascript'' ct \<or> sublist ''application/xhtml+xml'' ct
      then True
      else if b = [] then True
      else (7 / 10 :: rat) < of_nat (length (filter isPrintableByte (take 512 b)))
                             / of_nat (min 512 (length b)))
   \<and> isTextData b ''text/plain''"
proof -
  have tp: "isTextualContentType ''text/plain''"
    by (simp add: isTextualContentType_def HasPrefix_def)
  show ?thesis
  proof (cases "isTextualContentType ct")
    case True
    then show ?thesis
      using tp by (simp add: isTextData_def isTextualContentType_iff [symmetric])
  next
    case False
    show ?thesis
    proof (cases "b = []")
      case True
      then show ?thesis
        using False tp by (simp add: isTextData_def isTextualContentType_iff [symmetric])
    next
      case nonempty: False
      show ?thesis
        using isTextData_heuristic [OF False nonempty] False nonempty tp
        by (simp add: isTextualContentType_iff [symmetric] isTextData_def)
    qed
  qed
qed

text \<open>
  The first bytes of a JPEG file with no declared type are binary, and text under
  \<open>text/plain\<close>; two printable bytes of three are binary, three of four are text, and
  exactly seven of ten are binary, since the fraction must exceed 7/10.
\<close>

theorem isTextData_policy_witness:
  "isTextData [0xFF, 0xD8, 0xFF, 0xE0, 0x00, 0x10, 0x4A, 0x46, 0x49, 0x46] '''' = False \<and>
   isTextData [0xFF, 0xD8, 0xFF, 0xE0, 0x00, 0x10, 0x4A, 0x46, 0x49, 0x46] ''text/plain'' \<and>
   isTextData [104, 105, 0] '''' = False \<and>
   isTextData [104, 105, 33, 0] '''' = True \<and>
   isTextData [65, 66, 67, 68, 69, 70, 71, 128, 129, 130] '''' = False"
  using isTextData_policy [of "[0xFF, 0xD8, 0xFF, 0xE0, 0x00, 0x10, 0x4A, 0x46, 0x49, 0x46]" "''''"]
        isTextData_policy [of "[0xFF, 0xD8, 0xFF, 0xE0, 0x00, 0x10, 0x4A, 0x46, 0x49, 0x46]" "''text/plain''"]
        isTextData_policy [of "[104, 105, 0]" "''''"]
        isTextData_policy [of "[104, 105, 33, 0]" "''''"]
        isTextData_policy [of "[65, 66, 67, 68, 69, 70, 71, 128, 129, 130]" "''''"]
  by (simp add: isPrintableByte_def)

section \<open>Capture interceptor: the response path\<close>

lemma natDigits_2: "natDigits 2 = ''2''"
  by (simp add: natDigits.simps digitChar_def char_of_def bit_0)

lemma gzip_hi_ne: "gzip_hi \<noteq> [104, 105]"
  by (simp add: gzip_hi_def)

text \<open>
  Claim C1, as the spec has it: the response body delivered to the client is
  byte-identical to the body the upstream sent, and so are the headers other than
  \<open>Content-Encoding\<close>, also when the upstream response is gzip-encoded. The code does
  otherwise, on purpose: for a gzip-encoded response that inflates, the client is sent the
  inflated body and a rewritten \<open>Content-Length\<close>. Here the upstream sends the 22 bytes
  of a gzip stream with \<open>Content-Length: 22\<close>; the client gets the two bytes \<open>hi\<close>
  with \<open>Content-Length: 2\<close>.
\<close>

theorem gzip_response_delivered_inflated:
  "map_option resp_Body
     (delivered (ModifyResponse gunzip_sample (Some zeroRequestLog) gzipResponse idleProxy))
     = Some (Inr [104, 105]) \<and>
   resp_Body gzipResponse = Inr gzip_hi \<and> gzip_hi \<noteq> [104, 105] \<and>
   map_option resp_Header
     (delivered (ModifyResponse gunzip_sample (Some zeroRequestLog) gzipResponse idleProxy))
     = Some [''Content-Length'' \<mapsto> [''2''], ''Content-Type'' \<mapsto> [''text/plain'']] \<and>
   resp_Header gzipResponse ''Content-Length'' = Some [''22'']"
proof -
  have "[''Content-Encoding'' \<mapsto> [''gzip''], ''Content-Length'' \<mapsto> [''22''],
         ''Content-Type'' \<mapsto> [''text/plain'']]
          (''Content-Encoding'' := None, ''Content-Length'' \<mapsto> [''2''])
        = [''Content-Length'' \<mapsto> [''2''], ''Content-Type'' \<mapsto> [''text/plain'']]"
    by (rule ext) simp
  then show ?thesis
    by (simp add: ModifyResponse_def delivered_def decompressGzip_def Header_Set_def
          Header_Del_def Let_def gzipResponse_def gunzip_sample_def Header_Get_def gzip_hi_ne
          Itoa_def natDigits_2)
qed

text \<open>
  Claim C1, amended. For every upstream response whose body can be read, whatever the
  record, the recording flag and the state of the queue: the client is delivered the
  upstream response unchanged (status, headers, body) unless its \<open>Content-Encoding\<close> is
  \<open>gzip\<close> and the body inflates; in that case it is delivered the inflated body, with
  \<open>Content-Encoding\<close> removed, \<open>Content-Length\<close> set to the inflated size, and the
  status and every other header as the upstream sent them.
\<close>

theorem ModifyResponse_delivers:
  assumes "resp_Body resp = Inr body"
  shows "delivered (ModifyResponse gunzip (Some reqLog) resp st) =
           Some (if Header_Get (resp_Header resp) ''Content-Encoding'' = ''gzip''
                 then (case gunzip body of
                         Inl e \<Rightarrow> resp
                       | Inr d \<Rightarrow>
                           resp\<lparr>resp_Header :=
                                  (resp_Header resp)(''Content-Encoding'' := None,
                                     ''Content-Length'' \<mapsto> [Itoa (int (length d))]),
                                resp_Body := Inr d\<rparr>)
                 else resp)"
  using assms
  by (simp add: ModifyResponse_def delivered_def decompressGzip_def Header_Set_def Header_Del_def
        Let_def split: sum.splits)

theorem ModifyResponse_delivers_witness:
  "resp_Body gzipResponse = Inr gzip_hi \<and>
   delivered (ModifyResponse gunzip_sample (Some zeroRequestLog) gzipResponse idleProxy) =
     Some (gzipResponse\<lparr>resp_Header :=
                           (resp_Header gzipResponse)(''Content-Encoding'' := None,
                              ''Content-Length'' \<mapsto> [''2'']),
                         resp_Body := Inr [104, 105]\<rparr>)"
  using ModifyResponse_delivers [of gzipResponse gzip_hi gunzip_sample zeroRequestLog idleProxy]
  by (simp add: gzipResponse_def gunzip_sample_def Header_Get_def Itoa_def natDigits_2)

text \<open>
  Claim C2, as the spec has it: when a gzip-encoded response inflates, the stored response
  headers have \<open>Content-Encoding\<close> removed and \<open>Content-Length\<close> set to the inflated
  size. The code serialises the headers into the record before it touches the body
  ("do this early to preserve original headers for logging"), so the stored headers are
  those received: here they still carry \<open>Content-Encoding: gzip\<close> and
  \<open>Content-Length: 22\<close>, beside a stored body of two bytes.
\<close>

theorem stored_headers_not_rewritten:
  "map_option ResponseHeaders
     (recorded (ModifyResponse gunzip_sample (Some zeroRequestLog) gzipResponse idleProxy))
     = Some (JSONText [''Content-Encoding'' \<mapsto> [''gzip''], ''Content-Length'' \<mapsto> [''22''],
                       ''Content-Type'' \<mapsto> [''text/plain'']]) \<and>
   map_option ResponseBody
     (recorded (ModifyResponse gunzip_sample (Some zeroRequestLog) gzipResponse idleProxy))
     = Some [104, 105]"
  by (simp add: ModifyResponse_def recorded_def decompressGzip_def Header_Set_def Header_Del_def
        HeadersToJSON_def Let_def gzipResponse_def gunzip_sample_def Header_Get_def)

text \<open>
  Claim C2, amended. When a gzip-encoded response inflates, the record holds the inflated
  body and the response headers exactly as received (the snapshot taken before
  decompression, \<open>Content-Encoding\<close> and the received \<open>Content-Length\<close> included); it
  is the headers delivered to the client that have \<open>Content-Encoding\<close> removed and
  \<open>Content-Length\<close> set to the inflated size.
\<close>

theorem ModifyResponse_stores_received_headers:
  assumes "resp_Body resp = Inr body"
      and "Header_Get (resp_Header resp) ''Content-Encoding'' = ''gzip''"
      and "decompressGzip gunzip body = Inr plain"
  shows "recorded (ModifyResponse gunzip (Some reqLog) resp st) =
           Some (reqLog\<lparr>StatusCode := resp_StatusCode resp,
                        ResponseHeaders := HeadersToJSON (resp_Header resp),
                        ResponseBody := plain\<rparr>) \<and>
         HeadersToJSON (resp_Header resp) = JSONText (resp_Header resp) \<and>
         map_option resp_Header (delivered (ModifyResponse gunzip (Some reqLog) resp st)) =
           Some ((resp_Header resp)(''Content-Encoding'' := None,
                   ''Content-Length'' \<mapsto> [Itoa (int (length plain))]))"
  using assms
  by (simp add: ModifyResponse_def recorded_def delivered_def Header_Set_def Header_Del_def
        HeadersToJSON_def Let_def)

theorem ModifyResponse_stores_received_headers_witness:
  "resp_Body gzipResponse = Inr gzip_hi \<and>
   Header_Get (resp_Header gzipResponse) ''Content-Encoding'' = ''gzip'' \<and>
   decompressGzip gunzip_sample gzip_hi = Inr [104, 105] \<and>
   recorded (ModifyResponse gunzip_sample (Some zeroRequestLog) gzipResponse idleProxy) =
     Some (zeroRequestLog\<lparr>StatusCode := 200,
                           ResponseHeaders := JSONText (resp_Header gzipResponse),
                           ResponseBody := [104, 105]\<rparr>)"
proof -
  have a: "resp_Body gzipResponse = Inr gzip_hi"
    by (simp add: gzipResponse_def)
  have b: "Header_Get (resp_Header gzipResponse) ''Content-Encoding'' = ''gzip''"
    by (simp add: gzipResponse_def Header_Get_def)
  have c: "decompressGzip gunzip_sample gzip_hi = Inr [104, 105]"
    by (simp add: decompressGzip_def gunzip_sample_def)
  have d: "resp_StatusCode gzipResponse = 200"
    by (simp add: gzipResponse_def)
  show ?thesis
    using ModifyResponse_stores_received_headers [OF a b c, of zeroRequestLog idleProxy] a b c d
    by (simp add: HeadersToJSON_def)
qed

text \<open>
  Claim C3. When the response is marked \<open>Content-Encoding: gzip\<close> and its body does not
  inflate, \<open>ModifyResponse\<close> returns no error: the response goes on to the client
  exactly as received (the raw bytes, the headers untouched), the record holds the raw
  bytes and the headers as received, and the record is offered to the queue as for any
  other exchange whenever recording is on. The failure only adds a line to the log.
\<close>

theorem ModifyResponse_bad_gzip:
  assumes "resp_Body resp = Inr body"
      and "Header_Get (resp_Header resp) ''Content-Encoding'' = ''gzip''"
      and "decompressGzip gunzip body = Inl err"
  shows "ModifyResponse gunzip (Some reqLog) resp st =
           Inr (resp,
                Some (reqLog\<lparr>StatusCode := resp_StatusCode resp,
                             ResponseHeaders := HeadersToJSON (resp_Header resp),
                             ResponseBody := body\<rparr>),
                (if IsRecording st
                 then trySend (reqLog\<lparr>StatusCode := resp_StatusCode resp,
                                       ResponseHeaders := HeadersToJSON (resp_Header resp),
                                       ResponseBody := body\<rparr>)
                        (logEvent LogResponseDecompressError st)
                 else logEvent LogResponseDecompressError st))"
proof -
  have "resp\<lparr>resp_Header := resp_Header resp, resp_Body := Inr body\<rparr> = resp"
    using assms(1) by simp
  then show ?thesis
    using assms by (simp add: ModifyResponse_def Let_def logEvent_def)
qed

theorem ModifyResponse_bad_gzip_witness:
  "resp_Body badGzipResponse = Inr [111, 111, 112, 115] \<and>
   Header_Get (resp_Header badGzipResponse) ''Content-Encoding'' = ''gzip'' \<and>
   decompressGzip gunzip_sample [111, 111, 112, 115] = Inl ErrHeader \<and>
   delivered (ModifyResponse gunzip_sample (Some zeroRequestLog) badGzipResponse idleProxy)
     = Some badGzipResponse \<and>
   pending
     (stateAfter (ModifyResponse gunzip_sample (Some zeroRequestLog) badGzipResponse idleProxy))
     = [zeroRequestLog\<lparr>StatusCode := 200,
                        ResponseHeaders := JSONText (resp_Header badGzipResponse),
                        ResponseBody := [111, 111, 112, 115]\<rparr>]"
proof -
  have a: "resp_Body badGzipResponse = Inr [111, 111, 112, 115]"
    by (simp add: badGzipResponse_def)
  have b: "Header_Get (resp_Header badGzipResponse) ''Content-Encoding'' = ''gzip''"
    by (simp add: badGzipResponse_def Header_Get_def)
  have c: "decompressGzip gunzip_sample [111, 111, 112, 115] = Inl ErrHeader"
    by (simp add: decompressGzip_def gunzip_sample_def gzip_hi_def)
  have d: "resp_StatusCode badGzipResponse = 200"
    by (simp add: badGzipResponse_def)
  show ?thesis
    using ModifyResponse_bad_gzip [OF a b c, of zeroRequestLog idleProxy] a b c d
    by (simp add: HeadersToJSON_def delivered_def stateAfter_def trySend_def logEvent_def
          idleProxy_def pending_def)
qed

section \<open>Capture interceptor: the request path\<close>

text \<open>
  Claim C10. For an inbound request that carries \<open>Content-Encoding: gzip\<close> and whose
  body inflates, \<open>ServeHTTP\<close> hands the reverse proxy the request with the compressed
  bytes it received as its body and its headers untouched, and puts in the context a
  record whose request body is the inflated payload and whose request headers are the
  snapshot of the headers as received (\<open>Content-Encoding\<close> and \<open>Content-Length\<close>
  included). Nothing else of the record depends on the decompression, and nothing is
  logged.
\<close>

theorem ServeHTTP_gzip_request:
  assumes "req_Body r = Inr compressed"
      and "Header_Get (req_Header r) ''Content-Encoding'' = ''gzip''"
      and "decompressGzip gunzip compressed = Inr plain"
  shows "ServeHTTP gunzip now r st =
           (st, Inr (r\<lparr>req_Body := Inr compressed\<rparr>,
                     zeroRequestLog\<lparr>Timestamp := now, Method := req_Method r, URL := req_URL r,
                                    RequestHeaders := HeadersToJSON (req_Header r),
                                    RequestBody := plain\<rparr>)) \<and>
         req_Header (r\<lparr>req_Body := Inr compressed\<rparr>) = req_Header r \<and>
         HeadersToJSON (req_Header r) = JSONText (req_Header r)"
  using assms by (simp add: ServeHTTP_def Let_def HeadersToJSON_def)

theorem ServeHTTP_gzip_request_witness:
  "req_Body gzipRequest = Inr gzip_hi \<and>
   Header_Get (req_Header gzipRequest) ''Content-Encoding'' = ''gzip'' \<and>
   decompressGzip gunzip_sample gzip_hi = Inr [104, 105] \<and>
   ServeHTTP gunzip_sample 1700000000 gzipRequest idleProxy =
     (idleProxy,
      Inr (gzipRequest,
           zeroRequestLog\<lparr>Timestamp := 1700000000, Method := ''POST'', URL := ''/upload'',
                          RequestHeaders :=
                            JSONText [''Content-Encoding'' \<mapsto> [''gzip''],
                                      ''Content-Length'' \<mapsto> [''22'']],
                          RequestBody := [104, 105]\<rparr>))"
proof -
  have a: "req_Body gzipRequest = Inr gzip_hi"
    by (simp add: gzipRequest_def)
  have b: "Header_Get (req_Header gzipRequest) ''Content-Encoding'' = ''gzip''"
    by (simp add: gzipRequest_def Header_Get_def)
  have c: "decompressGzip gunzip_sample gzip_hi = Inr [104, 105]"
    by (simp add: decompressGzip_def gunzip_sample_def)
  have d: "gzipRequest\<lparr>req_Body := Inr gzip_hi\<rparr> = gzipRequest"
    by (simp add: gzipRequest_def)
  show ?thesis
    using ServeHTTP_gzip_request [OF a b c, of 1700000000 idleProxy] a b c
    by (simp add: d HeadersToJSON_def) (simp add: gzipRequest_def)
qed

section \<open>Persistence pipeline\<close>

lemma trySend_full:
  "consumer st \<noteq> Parked \<Longrightarrow> length (requestLogChan st) = chanCapacity \<Longrightarrow>
   trySend e st = logEvent LogChannelFull st"
  by (simp add: trySend_def)

lemma trySend_running:
  assumes "consumer st \<noteq> Parked"
  shows "consumer (trySend e st) = consumer st"
    and "requestLogChan (trySend e st) =
           (if length (requestLogChan st) < chanCapacity then requestLogChan st @ [e]
            else requestLogChan st)"
    and "opLog (trySend e st) =
           (if length (requestLogChan st) < chanCapacity then opLog st
            else opLog st @ [LogChannelFull])"
  using assms by (simp_all add: trySend_def logEvent_def)

text \<open>
  A run of sends while the consumer takes nothing and is not parked: the buffer takes what
  fits, in order, and every further send is one drop line in the log.
\<close>

lemma burst_running:
  assumes "consumer st \<noteq> Parked" "length (requestLogChan st) \<le> chanCapacity"
  shows "consumer (fold trySend rs st) = consumer st \<and>
         requestLogChan (fold trySend rs st) =
           requestLogChan st @ take (chanCapacity - length (requestLogChan st)) rs \<and>
         opLog (fold trySend rs st) =
           opLog st @ replicate (length rs - (chanCapacity - length (requestLogChan st))) LogChannelFull"
  using assms
proof (induction rs arbitrary: st)
  case Nil
  then show ?case by simp
next
  case (Cons e rs)
  note run = trySend_running [OF Cons.prems(1), of e]
  have np: "consumer (trySend e st) \<noteq> Parked"
    using Cons.prems(1) run(1) by simp
  show ?case
  proof (cases "length (requestLogChan st) < chanCapacity")
    case True
    then have le: "length (requestLogChan (trySend e st)) \<le> chanCapacity"
      by (simp add: run(2))
    have d: "chanCapacity - length (requestLogChan st) = Suc (chanCapacity - Suc (length (requestLogChan st)))"
      using True by simp
    show ?thesis
      using Cons.IH [OF np le] True
      by (simp add: run d)
  next
    case False
    then have full: "length (requestLogChan st) = chanCapacity"
      using Cons.prems(2) by simp
    then have le: "length (requestLogChan (trySend e st)) \<le> chanCapacity"
      by (simp add: run(2))
    show ?thesis
      using Cons.IH [OF np le] full
      by (simp add: run replicate_append_same)
  qed
qed

text \<open>
  The same run when the consumer is parked on the receive: it takes the first record
  itself, and the buffer and the log go on from there.
\<close>

lemma burst_parked:
  assumes "consumer st = Parked" "requestLogChan st = []" "rs \<noteq> []"
  shows "consumer (fold trySend rs st) = Busy (hd rs) \<and>
         requestLogChan (fold trySend rs st) = take chanCapacity (tl rs) \<and>
         opLog (fold trySend rs st) =
           opLog st @ replicate (length rs - Suc chanCapacity) LogChannelFull"
proof -
  obtain r rest where rs: "rs = r # rest"
    using assms(3) by (cases rs) auto
  define st1 where "st1 = st\<lparr>consumer := Busy r\<rparr>"
  have first: "trySend r st = st1"
    using assms(1) by (simp add: trySend_def st1_def)
  have np: "consumer st1 \<noteq> Parked" and le: "length (requestLogChan st1) \<le> chanCapacity"
    using assms(2) by (simp_all add: st1_def)
  show ?thesis
    using burst_running [OF np le, of rest] assms(2)
    by (simp add: rs first) (simp add: st1_def)
qed

lemma LogRequest_accepted:
  assumes "drv StmtPrepareInsert" "drv (StmtExecInsert (populate e))"
  shows "LogRequest drv e (db, lg) = (insertRow db (populate e), lg)"
  using assms by (simp add: LogRequest_def Let_def)

lemma consume_accepted:
  assumes "drv StmtPrepareInsert" "\<forall>e \<in> set q. drv (StmtExecInsert (populate e))"
  shows "consume drv q (db, lg) = (fold (\<lambda>e d. insertRow d (populate e)) q db, lg)"
  using assms(2)
proof (induction q arbitrary: db)
  case Nil
  then show ?case by simp
next
  case (Cons e q)
  have step: "LogRequest drv e (db, lg) = (insertRow db (populate e), lg)"
    using assms(1) Cons.prems by (simp add: LogRequest_accepted)
  have rest: "\<forall>e \<in> set q. drv (StmtExecInsert (populate e))"
    using Cons.prems by simp
  show ?case
    using Cons.IH [OF rest, of "insertRow db (populate e)"] step by simp
qed

lemma insertRow_rows: "db_rows (insertRow d x) = db_rows d @ [x\<lparr>ID := db_lastID d + 1\<rparr>]"
  by (simp add: insertRow_def)

lemma insertRow_lastID: "db_lastID (insertRow d x) = db_lastID d + 1"
  by (simp add: insertRow_def)

lemma fold_insert_lastID:
  "db_lastID (fold (\<lambda>e d. insertRow d (populate e)) q db) = db_lastID db + int (length q)"
  by (induction q rule: rev_induct) (simp_all add: insertRow_lastID)

lemma fold_insert_rows:
  "db_rows (fold (\<lambda>e d. insertRow d (populate e)) q db) =
     db_rows db @ map2 (\<lambda>i e. (populate e)\<lparr>ID := db_lastID db + 1 + int i\<rparr>) [0..<length q] q"
proof (induction q rule: rev_induct)
  case Nil
  then show ?case by simp
next
  case (snoc e q)
  then show ?case
    by (simp add: insertRow_rows fold_insert_lastID add.commute add.left_commute)
qed

lemma persisted:
  assumes "drv StmtPrepareInsert" "\<forall>e \<in> set q. drv (StmtExecInsert (populate e))"
  shows "db_rows (fst (consume drv q (db, lg))) =
           db_rows db @ map2 (\<lambda>i e. (populate e)\<lparr>ID := db_lastID db + 1 + int i\<rparr>) [0..<length q] q"
    and "snd (consume drv q (db, lg)) = lg"
  unfolding consume_accepted [OF assms] by (simp_all add: fold_insert_rows)

text \<open>
  Left alone, the consumer logs what it holds and then what is pending, oldest first, one
  \<open>LogRequest\<close> each, and parks on the empty channel.
\<close>

lemma drain_ready:
  assumes "consumer st = Ready"
  shows "(consumerStep drv ^^ (2 * length (requestLogChan st) + 1)) (st, s) =
           (st\<lparr>consumer := Parked, requestLogChan := []\<rparr>, consume drv (requestLogChan st) s)"
  using assms
proof (induction "requestLogChan st" arbitrary: st s)
  case Nil
  then show ?case
    by (simp add: consumerStep_def)
next
  case (Cons e q)
  define st1 where "st1 = st\<lparr>consumer := Busy e, requestLogChan := q\<rparr>"
  define st2 where "st2 = st1\<lparr>consumer := Ready\<rparr>"
  have s1: "consumerStep drv (st, s) = (st1, s)"
    using Cons.prems Cons.hyps(2) [symmetric] by (simp add: consumerStep_def st1_def)
  have s2: "consumerStep drv (st1, s) = (st2, LogRequest drv e s)"
    by (simp add: consumerStep_def st1_def st2_def)
  have q: "q = requestLogChan st2" and r: "consumer st2 = Ready"
    by (simp_all add: st2_def st1_def)
  have n: "2 * length (requestLogChan st) + 1 = Suc (Suc (2 * length (requestLogChan st2) + 1))"
    using Cons.hyps(2) [symmetric] q by simp
  have e: "st2\<lparr>consumer := Parked, requestLogChan := []\<rparr> = st\<lparr>consumer := Parked, requestLogChan := []\<rparr>"
    by (simp add: st2_def st1_def)
  show ?case
    unfolding n funpow_Suc_right o_apply s1 s2
    using Cons.hyps(1) [OF q r, of "LogRequest drv e s"] Cons.hyps(2) [symmetric] q e
    by simp
qed

lemma drain:
  assumes "consumer st = Parked \<longrightarrow> requestLogChan st = []"
  shows "(consumerStep drv ^^ drainSteps st) (st, s) =
           (st\<lparr>consumer := Parked, requestLogChan := []\<rparr>, consume drv (pending st) s)"
proof (cases "consumer st")
  case Parked
  then have "st\<lparr>consumer := Parked, requestLogChan := []\<rparr> = st"
    using assms by (metis ProxyState.surjective ProxyState.update_convs(2,3))
  then show ?thesis
    using Parked assms by (simp add: drainSteps_def pending_def)
next
  case (Busy e)
  define st1 where "st1 = st\<lparr>consumer := Ready\<rparr>"
  have s1: "consumerStep drv (st, s) = (st1, LogRequest drv e s)"
    using Busy by (simp add: consumerStep_def st1_def)
  have r: "consumer st1 = Ready" and q: "requestLogChan st1 = requestLogChan st"
    by (simp_all add: st1_def)
  have n: "drainSteps st = Suc (2 * length (requestLogChan st1) + 1)"
    using Busy by (simp add: drainSteps_def q)
  have e: "st1\<lparr>consumer := Parked, requestLogChan := []\<rparr> = st\<lparr>consumer := Parked, requestLogChan := []\<rparr>"
    by (simp add: st1_def)
  show ?thesis
    unfolding n funpow_Suc_right o_apply s1
    using drain_ready [OF r, of drv "LogRequest drv e s"] Busy
    by (simp add: e q pending_def)
next
  case Ready
  then show ?thesis
    using drain_ready [OF Ready, of drv s] by (simp add: drainSteps_def pending_def)
qed

text \<open>
  Claim C5, as the spec has it: enqueueing \<open>N > C = 100\<close> records while the consumer
  takes nothing leaves exactly \<open>C\<close> records to be persisted and logs \<open>N - C\<close> drops. On
  an idle proxy the consumer is parked on the receive and is handed the first record of the
  burst before it gets stuck in the store, so a record more survives: of 150 records sent
  to the idle proxy, 49 are dropped, not 50, and once the consumer runs on, 101 rows are
  inserted, not 100.
\<close>

theorem idle_burst_keeps_one_more:
  "consumer idleProxy = Parked \<and> requestLogChan idleProxy = [] \<and>
   opLog (fold trySend (replicate 150 zeroRequestLog) idleProxy) = replicate 49 LogChannelFull \<and>
   length (pending (fold trySend (replicate 150 zeroRequestLog) idleProxy)) = 101 \<and>
   drainSteps (fold trySend (replicate 150 zeroRequestLog) idleProxy) = 202 \<and>
   length (db_rows (fst (snd ((consumerStep healthy ^^ 202)
       (fold trySend (replicate 150 zeroRequestLog) idleProxy, emptyDatabase, []))))) = 101"
proof -
  define st where "st = fold trySend (replicate 150 zeroRequestLog) idleProxy"
  have a: "consumer idleProxy = Parked" "requestLogChan idleProxy = []" "opLog idleProxy = []"
    by (simp_all add: idleProxy_def)
  have ne: "replicate 150 zeroRequestLog \<noteq> []"
    by simp
  have tl: "tl (replicate 150 zeroRequestLog) = replicate 149 zeroRequestLog"
    by (simp add: tl_replicate)
  note b = burst_parked [OF a(1) a(2) ne, folded st_def]
  have c: "consumer st = Busy zeroRequestLog"
    using b by simp
  have q: "requestLogChan st = replicate 100 zeroRequestLog"
    using b by (simp add: tl chanCapacity_def)
  have l: "opLog st = replicate 49 LogChannelFull"
    using b a(3) by (simp add: chanCapacity_def)
  have "replicate 101 zeroRequestLog = replicate (Suc 100) zeroRequestLog"
    by simp
  then have r101: "zeroRequestLog # replicate 100 zeroRequestLog = replicate 101 zeroRequestLog"
    by (simp only: replicate_Suc)
  have p: "pending st = replicate 101 zeroRequestLog"
    using r101 by (simp add: pending_def c q)
  have n: "drainSteps st = 202"
    by (simp add: drainSteps_def c q)
  have inv: "consumer st = Parked \<longrightarrow> requestLogChan st = []"
    by (simp add: c)
  have acc: "healthy StmtPrepareInsert"
    "\<forall>e \<in> set (pending st). healthy (StmtExecInsert (populate e))"
    by (simp_all add: healthy_def)
  have d: "(consumerStep healthy ^^ 202) (st, emptyDatabase, []) =
             (st\<lparr>consumer := Parked, requestLogChan := []\<rparr>, consume healthy (pending st) (emptyDatabase, []))"
    using drain [OF inv, of healthy "(emptyDatabase, [])"] by (simp only: n)
  have r: "length (db_rows (fst (consume healthy (pending st) (emptyDatabase, [])))) = 101"
    unfolding persisted(1) [OF acc] by (simp add: p emptyDatabase_def)
  show ?thesis
    using a l p n r unfolding st_def [symmetric] d by simp
qed

text \<open>
  Claim C5, amended. The channel buffers at most 100 records. A send returns at once: the
  record is taken by the consumer when it is parked on the receive, else it is queued when
  fewer than 100 are pending, else the channel and the consumer stay as they were and one
  drop line is logged. So when more than 100 records are sent to an empty channel while the
  consumer takes nothing further: if the consumer was busy with an earlier record, the
  first 100 are queued and each other is one drop line (\<open>N - 100\<close> drops); if it was
  parked, it holds the first record, the next 100 are queued, and there are \<open>N - 101\<close>
  drops. Once the consumer runs on, it logs what it holds and then the queued records in
  order and parks; against a store that accepts the inserts these are inserted, each with
  the next row id, and nothing is logged.
\<close>

theorem pipeline_overflow:
  assumes "requestLogChan st = []"
      and "chanCapacity < length rs"
      and "drv StmtPrepareInsert"
      and "\<forall>e \<in> set (pending (fold trySend rs st)). drv (StmtExecInsert (populate e))"
  shows "chanCapacity = 100 \<and>
         (consumer st = Parked \<longrightarrow>
            pending (fold trySend rs st) = take 101 rs \<and>
            opLog (fold trySend rs st) = opLog st @ replicate (length rs - 101) LogChannelFull) \<and>
         (consumer st \<noteq> Parked \<longrightarrow>
            consumer (fold trySend rs st) = consumer st \<and>
            requestLogChan (fold trySend rs st) = take 100 rs \<and>
            opLog (fold trySend rs st) = opLog st @ replicate (length rs - 100) LogChannelFull) \<and>
         (consumerStep drv ^^ drainSteps (fold trySend rs st)) (fold trySend rs st, db, lg) =
           ((fold trySend rs st)\<lparr>consumer := Parked, requestLogChan := []\<rparr>,
            consume drv (pending (fold trySend rs st)) (db, lg)) \<and>
         db_rows (fst (consume drv (pending (fold trySend rs st)) (db, lg))) =
           db_rows db @
           map2 (\<lambda>i e. (populate e)\<lparr>ID := db_lastID db + 1 + int i\<rparr>)
             [0..<length (pending (fold trySend rs st))] (pending (fold trySend rs st)) \<and>
         snd (consume drv (pending (fold trySend rs st)) (db, lg)) = lg \<and>
         (consumer st' \<noteq> Parked \<and> length (requestLogChan st') = chanCapacity \<longrightarrow>
            trySend e' st' = st'\<lparr>opLog := opLog st' @ [LogChannelFull]\<rparr>)"
proof -
  define st1 where "st1 = fold trySend rs st"
  have cap: "chanCapacity = 100"
    by (simp add: chanCapacity_def)
  have ne: "rs \<noteq> []"
    using assms(2) by auto
  have parked: "consumer st = Parked \<longrightarrow>
            consumer st1 = Busy (hd rs) \<and> pending st1 = take 101 rs \<and>
            opLog st1 = opLog st @ replicate (length rs - 101) LogChannelFull"
  proof
    assume p: "consumer st = Parked"
    note b = burst_parked [OF p assms(1) ne, folded st1_def]
    have "hd rs # take 100 (tl rs) = take 101 rs"
      using ne by (cases rs) simp_all
    then show "consumer st1 = Busy (hd rs) \<and> pending st1 = take 101 rs \<and>
            opLog st1 = opLog st @ replicate (length rs - 101) LogChannelFull"
      using b by (simp add: pending_def cap)
  qed
  have running: "consumer st \<noteq> Parked \<longrightarrow>
            consumer st1 = consumer st \<and> requestLogChan st1 = take 100 rs \<and>
            opLog st1 = opLog st @ replicate (length rs - 100) LogChannelFull"
  proof
    assume np: "consumer st \<noteq> Parked"
    have le: "length (requestLogChan st) \<le> chanCapacity"
      using assms(1) by simp
    show "consumer st1 = consumer st \<and> requestLogChan st1 = take 100 rs \<and>
            opLog st1 = opLog st @ replicate (length rs - 100) LogChannelFull"
      using burst_running [OF np le, of rs, folded st1_def] assms(1) by (simp add: cap)
  qed
  have inv: "consumer st1 = Parked \<longrightarrow> requestLogChan st1 = []"
    using parked running by (cases "consumer st = Parked") simp_all
  have d: "(consumerStep drv ^^ drainSteps st1) (st1, db, lg) =
             (st1\<lparr>consumer := Parked, requestLogChan := []\<rparr>, consume drv (pending st1) (db, lg))"
    by (rule drain [OF inv])
  have acc: "\<forall>e \<in> set (pending st1). drv (StmtExecInsert (populate e))"
    using assms(4) by (simp add: st1_def)
  note p = persisted [OF assms(3) acc, of db lg]
  have full: "consumer st' \<noteq> Parked \<and> length (requestLogChan st') = chanCapacity \<longrightarrow>
                trySend e' st' = st'\<lparr>opLog := opLog st' @ [LogChannelFull]\<rparr>"
    by (simp add: trySend_full logEvent_def)
  show ?thesis
    unfolding st1_def [symmetric]
    using cap parked running d p full by blast
qed

theorem pipeline_overflow_witness:
  "requestLogChan idleProxy = [] \<and> consumer idleProxy = Parked \<and>
   pending (fold trySend (replicate 101 zeroRequestLog) idleProxy) = replicate 101 zeroRequestLog \<and>
   opLog (fold trySend (replicate 102 zeroRequestLog) idleProxy) = [LogChannelFull] \<and>
   requestLogChan (fold trySend (replicate 101 zeroRequestLog) (idleProxy\<lparr>consumer := Ready\<rparr>))
     = replicate 100 zeroRequestLog \<and>
   opLog (fold trySend (replicate 101 zeroRequestLog) (idleProxy\<lparr>consumer := Ready\<rparr>))
     = [LogChannelFull]"
proof -
  have a: "requestLogChan idleProxy = []" "consumer idleProxy = Parked" "opLog idleProxy = []"
    by (simp_all add: idleProxy_def)
  have a': "requestLogChan (idleProxy\<lparr>consumer := Ready\<rparr>) = []"
    "consumer (idleProxy\<lparr>consumer := Ready\<rparr>) \<noteq> Parked"
    "opLog (idleProxy\<lparr>consumer := Ready\<rparr>) = []"
    by (simp_all add: idleProxy_def)
  have b: "chanCapacity < length (replicate 101 zeroRequestLog)"
    "chanCapacity < length (replicate 102 zeroRequestLog)"
    by (simp_all add: chanCapacity_def)
  have c: "healthy StmtPrepareInsert"
    by (simp add: healthy_def)
  have d: "\<And>rs st. \<forall>e \<in> set (pending (fold trySend rs st)). healthy (StmtExecInsert (populate e))"
    by (simp add: healthy_def)
  note t1 = pipeline_overflow [OF a(1) b(1) c d, of emptyDatabase "[]" idleProxy zeroRequestLog]
  note t2 = pipeline_overflow [OF a(1) b(2) c d, of emptyDatabase "[]" idleProxy zeroRequestLog]
  note t3 = pipeline_overflow [OF a'(1) b(1) c d, of emptyDatabase "[]" idleProxy zeroRequestLog]
  have p: "pending (fold trySend (replicate 101 zeroRequestLog) idleProxy) = replicate 101 zeroRequestLog"
    using t1 a(2) by simp
  have l: "opLog (fold trySend (replicate 102 zeroRequestLog) idleProxy) = [LogChannelFull]"
    using t2 a(2) a(3) by simp
  have q: "requestLogChan (fold trySend (replicate 101 zeroRequestLog) (idleProxy\<lparr>consumer := Ready\<rparr>))
     = replicate 100 zeroRequestLog"
    using t3 [THEN conjunct2, THEN conjunct2, THEN conjunct1] a'(2) by simp
  have l': "opLog (fold trySend (replicate 101 zeroRequestLog) (idleProxy\<lparr>consumer := Ready\<rparr>))
     = [LogChannelFull]"
    using t3 [THEN conjunct2, THEN conjunct2, THEN conjunct1] a'(2) a'(3) by simp
  show ?thesis
    using a(1) a(2) p l q l' by (simp only: simp_thms)
qed

section \<open>Replay engine: text or binary\<close>

lemma replayIsText_iff:
  "replayIsText ct \<longleftrightarrow>
     prefix ''text/'' ct \<or> sublist ''json'' ct \<or> sublist ''xml'' ct \<or> sublist ''javascript'' ct"
  by (simp only: replayIsText_def HasPrefix_def Contains_sublist)

lemma textual_family_sublists:
  "sublist ''json'' ''application/json''"
  "sublist ''xml'' ''application/xml''"
  "sublist ''javascript'' ''application/javascript''"
  "sublist ''xml'' ''application/xhtml+xml''"
  by (simp_all add: Contains_sublist [symmetric])

lemma textual_implies_replay_text:
  assumes "isTextualContentType ct"
  shows "replayIsText ct"
  using assms textual_family_sublists
  unfolding isTextualContentType_iff replayIsText_iff
  by (meson sublist_order.order_trans)

lemma not_textual_empty: "\<not> isTextualContentType ''''"
  by (simp add: isTextualContentType_def HasPrefix_def)

lemma not_textual_svg: "\<not> isTextualContentType ''image/svg+xml''"
  by (simp add: isTextualContentType_def HasPrefix_def)

lemma bytesToString_hi: "bytesToString [104, 105] = ''hi''"
  by (simp add: bytesToString_def char_of_def bit_0)

text \<open>
  Claim C7, as the spec has it: the replay engine's decision between text and binary
  equals the content classifier's decision for the same bytes and declared type. It does
  not. A response with no \<open>Content-Type\<close> and the body \<open>hi\<close> is text for the
  classifier (all bytes printable) and binary for the replay engine, which returns it
  base64-encoded; a response declared \<open>image/svg+xml\<close> with JPEG bytes is binary for the
  classifier and text for the replay engine, which returns the bytes as they are.
\<close>

theorem replay_differs_from_classifier:
  "isTextData [104, 105] '''' \<and> \<not> replayIsText '''' \<and>
   replayResponseBody gunzip_sample Map.empty [104, 105] = ''aGk='' \<and>
   \<not> isTextData [0xFF, 0xD8, 0xFF, 0xE0] ''image/svg+xml'' \<and> replayIsText ''image/svg+xml'' \<and>
   replayResponseBody gunzip_sample [''Content-Type'' \<mapsto> [''image/svg+xml'']]
     [0xFF, 0xD8, 0xFF, 0xE0] = bytesToString [0xFF, 0xD8, 0xFF, 0xE0]"
proof -
  have a: "isTextData [104, 105] ''''"
    using isTextData_heuristic [OF not_textual_empty, of "[104, 105]"]
    by (simp add: isPrintableByte_def)
  have b: "\<not> replayIsText ''''"
    by (simp add: replayIsText_def HasPrefix_def)
  have c: "replayResponseBody gunzip_sample Map.empty [104, 105] = ''aGk=''"
    using b by (simp add: replayResponseBody_def replayBodyBytes_def Header_Get_def Let_def
        sextet_def base64Alphabet_def)
  have d: "\<not> isTextData [0xFF, 0xD8, 0xFF, 0xE0] ''image/svg+xml''"
    using isTextData_heuristic [OF not_textual_svg, of "[0xFF, 0xD8, 0xFF, 0xE0]"]
    by (simp add: isPrintableByte_def)
  have e: "replayIsText ''image/svg+xml''"
    by (simp add: replayIsText_def HasPrefix_def)
  have f: "replayResponseBody gunzip_sample [''Content-Type'' \<mapsto> [''image/svg+xml'']]
             [0xFF, 0xD8, 0xFF, 0xE0] = bytesToString [0xFF, 0xD8, 0xFF, 0xE0]"
    using e by (simp add: replayResponseBody_def replayBodyBytes_def Header_Get_def Let_def)
  show ?thesis
    using a b c d e f by (simp only: simp_thms)
qed

text \<open>
  Claim C7, amended. The replay engine decides from the declared \<open>Content-Type\<close> alone:
  the body is text exactly when the type starts with \<open>text/\<close> or contains \<open>json\<close>,
  \<open>xml\<close> or \<open>javascript\<close>; there is no rule for the empty payload and no look at the
  bytes. Every media type of the classifier's textual family is text for the replay
  engine too. The bytes classified are those left by the gzip attempt (the inflated
  payload, or the raw bytes when the response is not gzip-encoded or does not inflate);
  a text body is returned as these bytes, a binary body base64-encoded.
\<close>

theorem replay_classification:
  "replayResponseBody gunzip header respBody =
     (if replayIsText (Header_Get header ''Content-Type'')
      then bytesToString (replayBodyBytes gunzip header respBody)
      else EncodeToString (replayBodyBytes gunzip header respBody)) \<and>
   replayBodyBytes gunzip header respBody =
     (if Header_Get header ''Content-Encoding'' = ''gzip''
      then (case gunzip respBody of Inl err \<Rightarrow> respBody | Inr d \<Rightarrow> d)
      else respBody) \<and>
   replayIsText ct =
     (prefix ''text/'' ct \<or> sublist ''json'' ct \<or> sublist ''xml'' ct \<or> sublist ''javascript'' ct) \<and>
   (isTextualContentType ct \<longrightarrow> replayIsText ct)"
  using textual_implies_replay_text [of ct]
  by (simp add: replayResponseBody_def replayBodyBytes_def decompressGzip_def Let_def
        replayIsText_iff)

theorem replay_classification_witness:
  "isTextualContentType ''application/json'' \<and> replayIsText ''application/json'' \<and>
   replayResponseBody gunzip_sample
     [''Content-Type'' \<mapsto> [''application/json''], ''Content-Encoding'' \<mapsto> [''gzip'']] gzip_hi
     = ''hi''"
proof -
  have a: "isTextualContentType ''application/json''"
    by (simp add: isTextualContentType_def HasPrefix_def)
  note t = replay_classification [of gunzip_sample
      "[''Content-Type'' \<mapsto> [''application/json''], ''Content-Encoding'' \<mapsto> [''gzip'']]"
      gzip_hi "''application/json''"]
  have b: "replayIsText ''application/json''"
    using t a by blast
  have c: "replayResponseBody gunzip_sample
     [''Content-Type'' \<mapsto> [''application/json''], ''Content-Encoding'' \<mapsto> [''gzip'']] gzip_hi
     = ''hi''"
    using t b by (simp add: Header_Get_def gunzip_sample_def bytesToString_hi)
  show ?thesis
    using a b c by (simp only: simp_thms)
qed

section \<open>Schema migration\<close>

lemma columnExists_append:
  "columnExists (cols @ [col]) c \<longleftrightarrow> columnExists cols c \<or> fst col = c"
  by (induction cols) auto

lemma addColumn_present:
  assumes "hasColumn (tx_tables tx) t c"
  shows "addColumnIfNotExists drv t c ty tx =
           (if drv (StmtTableInfo t) then Inr (issue (StmtTableInfo t) tx)
            else Inl (Fatal ''Failed to query table info'', issue (StmtTableInfo t) tx))"
  using assms by (simp add: addColumnIfNotExists_def Let_def issue_def hasColumn_def)

lemma addColumn_result:
  assumes "addColumnIfNotExists drv t c ty tx = Inr tx'"
  shows "hasColumn (tx_tables tx') t c"
    and "hasColumn (tx_tables tx) t' c' \<Longrightarrow> hasColumn (tx_tables tx') t' c'"
    and "tx_tables tx t' \<noteq> None \<Longrightarrow> tx_tables tx' t' \<noteq> None"
    and "\<exists>ext. tx_trace tx' = tx_trace tx @ ext \<and> list_all onTransaction ext"
  using assms
  by (auto simp: addColumnIfNotExists_def Let_def issue_def hasColumn_def tableInfo_def
        columnExists_append split: if_splits option.splits)

lemma andThen_Inr:
  assumes "andThen r f = Inr tx"
  obtains tx0 where "r = Inr tx0" "f tx0 = Inr tx"
  using assms by (cases r) (simp_all add: andThen_def)

text \<open>The four additions of \<open>InitDB\<close>, from the state of the transaction at its start.\<close>

lemma InitDB_unfold:
  "InitDB drv db =
     (if \<not> drv StmtOpen
      then \<lparr>ir_fatal = Some (Fatal ''Failed to open database''), ir_db = db,
            ir_trace = [StmtOpen], ir_log = []\<rparr>
      else if \<not> drv StmtCreateTable
      then \<lparr>ir_fatal = Some (Fatal ''Failed to create table''), ir_db = db,
            ir_trace = [StmtOpen, StmtCreateTable], ir_log = []\<rparr>
      else if \<not> drv StmtBegin
      then \<lparr>ir_fatal = Some (Fatal ''Failed to begin transaction for schema migration''),
            ir_db = db\<lparr>db_tables := createTable (db_tables db)\<rparr>,
            ir_trace = [StmtOpen, StmtCreateTable, StmtBegin], ir_log = []\<rparr>
      else
        (case andThen (andThen (andThen
                (addColumnIfNotExists drv ''requests'' ''request_body_size'' ''INTEGER''
                   \<lparr>tx_tables = createTable (db_tables db),
                    tx_trace = [StmtOpen, StmtCreateTable, StmtBegin], tx_log = []\<rparr>)
                (addColumnIfNotExists drv ''requests'' ''is_request_body_text'' ''BOOLEAN''))
                (addColumnIfNotExists drv ''requests'' ''response_body_size'' ''INTEGER''))
                (addColumnIfNotExists drv ''requests'' ''is_response_body_text'' ''BOOLEAN'') of
           Inl (e, tx) \<Rightarrow>
             \<lparr>ir_fatal = Some e, ir_db = db\<lparr>db_tables := createTable (db_tables db)\<rparr>,
              ir_trace = tx_trace tx, ir_log = tx_log tx\<rparr>
         | Inr tx \<Rightarrow>
             if \<not> drv StmtCommit
             then \<lparr>ir_fatal = Some (Fatal ''Failed to commit schema migration''),
                   ir_db = db\<lparr>db_tables := createTable (db_tables db)\<rparr>,
                   ir_trace = tx_trace tx @ [StmtCommit], ir_log = tx_log tx\<rparr>
             else
               \<lparr>ir_fatal = None,
                ir_db = db\<lparr>db_tables := tx_tables tx\<rparr>,
                ir_trace = tx_trace tx @ [StmtCommit, StmtPragmaWAL],
                ir_log = (if drv StmtPragmaWAL then tx_log tx else tx_log tx @ [LogWALFailed])
                         @ [LogDatabaseInitialized]\<rparr>))"
  by (simp add: InitDB_def Let_def split: sum.splits prod.splits)

lemma InitDB_success:
  assumes "ir_fatal (InitDB drv db) = None"
  obtains tx :: Tx where
    "ir_db (InitDB drv db) = db\<lparr>db_tables := tx_tables tx\<rparr>"
    "ir_trace (InitDB drv db) = tx_trace tx @ [StmtCommit, StmtPragmaWAL]"
    "\<exists>mid. tx_trace tx = [StmtOpen, StmtCreateTable, StmtBegin] @ mid \<and> list_all onTransaction mid"
    "tx_tables tx ''requests'' \<noteq> None"
    "hasColumn (tx_tables tx) ''requests'' ''request_body_size''"
    "hasColumn (tx_tables tx) ''requests'' ''is_request_body_text''"
    "hasColumn (tx_tables tx) ''requests'' ''response_body_size''"
    "hasColumn (tx_tables tx) ''requests'' ''is_response_body_text''"
proof -
  define tx0 where "tx0 = \<lparr>tx_tables = createTable (db_tables db),
                    tx_trace = [StmtOpen, StmtCreateTable, StmtBegin], tx_log = []\<rparr>"
  define chain where "chain = andThen (andThen (andThen
                (addColumnIfNotExists drv ''requests'' ''request_body_size'' ''INTEGER'' tx0)
                (addColumnIfNotExists drv ''requests'' ''is_request_body_text'' ''BOOLEAN''))
                (addColumnIfNotExists drv ''requests'' ''response_body_size'' ''INTEGER''))
                (addColumnIfNotExists drv ''requests'' ''is_response_body_text'' ''BOOLEAN'')"
  from assms obtain tx4 where c: "chain = Inr tx4"
    and d: "ir_db (InitDB drv db) = db\<lparr>db_tables := tx_tables tx4\<rparr>"
    and t: "ir_trace (InitDB drv db) = tx_trace tx4 @ [StmtCommit, StmtPragmaWAL]"
    unfolding InitDB_unfold chain_def tx0_def
    by (auto split: if_splits sum.splits prod.splits)
  from c obtain tx3 where c3: "andThen (andThen
                (addColumnIfNotExists drv ''requests'' ''request_body_size'' ''INTEGER'' tx0)
                (addColumnIfNotExists drv ''requests'' ''is_request_body_text'' ''BOOLEAN''))
                (addColumnIfNotExists drv ''requests'' ''response_body_size'' ''INTEGER'') = Inr tx3"
    and s4: "addColumnIfNotExists drv ''requests'' ''is_response_body_text'' ''BOOLEAN'' tx3 = Inr tx4"
    unfolding chain_def by (rule andThen_Inr)
  from c3 obtain tx2 where c2: "andThen
                (addColumnIfNotExists drv ''requests'' ''request_body_size'' ''INTEGER'' tx0)
                (addColumnIfNotExists drv ''requests'' ''is_request_body_text'' ''BOOLEAN'') = Inr tx2"
    and s3: "addColumnIfNotExists drv ''requests'' ''response_body_size'' ''INTEGER'' tx2 = Inr tx3"
    by (rule andThen_Inr)
  from c2 obtain tx1 where
        s1: "addColumnIfNotExists drv ''requests'' ''request_body_size'' ''INTEGER'' tx0 = Inr tx1"
    and s2: "addColumnIfNotExists drv ''requests'' ''is_request_body_text'' ''BOOLEAN'' tx1 = Inr tx2"
    by (rule andThen_Inr)
  have tbl0: "tx_tables tx0 ''requests'' \<noteq> None"
    by (simp add: tx0_def createTable_def split: option.splits)
  have tbl: "tx_tables tx4 ''requests'' \<noteq> None"
    using tbl0 addColumn_result(3) [OF s1] addColumn_result(3) [OF s2]
      addColumn_result(3) [OF s3] addColumn_result(3) [OF s4] by blast
  have h1: "hasColumn (tx_tables tx4) ''requests'' ''request_body_size''"
    using addColumn_result(1) [OF s1] addColumn_result(2) [OF s2] addColumn_result(2) [OF s3]
      addColumn_result(2) [OF s4] by blast
  have h2: "hasColumn (tx_tables tx4) ''requests'' ''is_request_body_text''"
    using addColumn_result(1) [OF s2] addColumn_result(2) [OF s3] addColumn_result(2) [OF s4]
    by blast
  have h3: "hasColumn (tx_tables tx4) ''requests'' ''response_body_size''"
    using addColumn_result(1) [OF s3] addColumn_result(2) [OF s4] by blast
  have h4: "hasColumn (tx_tables tx4) ''requests'' ''is_response_body_text''"
    by (rule addColumn_result(1) [OF s4])
  obtain e1 e2 e3 e4 where
    "tx_trace tx1 = tx_trace tx0 @ e1" "list_all onTransaction e1"
    "tx_trace tx2 = tx_trace tx1 @ e2" "list_all onTransaction e2"
    "tx_trace tx3 = tx_trace tx2 @ e3" "list_all onTransaction e3"
    "tx_trace tx4 = tx_trace tx3 @ e4" "list_all onTransaction e4"
    using addColumn_result(4) [OF s1] addColumn_result(4) [OF s2]
      addColumn_result(4) [OF s3] addColumn_result(4) [OF s4] by blast
  then have "tx_trace tx4 = [StmtOpen, StmtCreateTable, StmtBegin] @ (e1 @ e2 @ e3 @ e4) \<and>
             list_all onTransaction (e1 @ e2 @ e3 @ e4)"
    by (simp add: tx0_def)
  then have tr: "\<exists>mid. tx_trace tx4 = [StmtOpen, StmtCreateTable, StmtBegin] @ mid \<and>
                       list_all onTransaction mid"
    by blast
  show thesis
    using that [OF d t tr tbl h1 h2 h3 h4] .
qed

lemma createTable_present:
  "tables ''requests'' \<noteq> None \<Longrightarrow> createTable tables = tables"
  by (auto simp: createTable_def split: option.splits)

lemma issue_tables: "tx_tables (issue stmt tx) = tx_tables tx"
  by (simp add: issue_def)

text \<open>
  On a schema that already has the four columns, the four calls only read the table
  information: whatever the driver answers, no \<open>ALTER TABLE\<close> is issued and the store
  stays as it is.
\<close>

lemma InitDB_migrated:
  assumes t: "db_tables db ''requests'' \<noteq> None"
      and h1: "hasColumn (db_tables db) ''requests'' ''request_body_size''"
      and h2: "hasColumn (db_tables db) ''requests'' ''is_request_body_text''"
      and h3: "hasColumn (db_tables db) ''requests'' ''response_body_size''"
      and h4: "hasColumn (db_tables db) ''requests'' ''is_response_body_text''"
  shows "ir_db (InitDB drv db) = db"
    and "filter isAlter (ir_trace (InitDB drv db)) = []"
    and "ir_log (InitDB drv db) = [] \<or> ir_log (InitDB drv db) = [LogDatabaseInitialized] \<or>
         ir_log (InitDB drv db) = [LogWALFailed, LogDatabaseInitialized]"
proof -
  define tx0 where "tx0 = \<lparr>tx_tables = db_tables db,
                    tx_trace = [StmtOpen, StmtCreateTable, StmtBegin], tx_log = []\<rparr>"
  define q where "q = StmtTableInfo ''requests''"
  have c: "createTable (db_tables db) = db_tables db"
    using t by (simp add: createTable_present)
  have p: "\<And>tx c ty. tx_tables tx = db_tables db \<Longrightarrow>
             hasColumn (db_tables db) ''requests'' c \<Longrightarrow>
             addColumnIfNotExists drv ''requests'' c ty tx =
               (if drv q then Inr (issue q tx)
                else Inl (Fatal ''Failed to query table info'', issue q tx))"
    unfolding q_def by (rule addColumn_present) simp
  have chain: "andThen (andThen (andThen
                (addColumnIfNotExists drv ''requests'' ''request_body_size'' ''INTEGER'' tx0)
                (addColumnIfNotExists drv ''requests'' ''is_request_body_text'' ''BOOLEAN''))
                (addColumnIfNotExists drv ''requests'' ''response_body_size'' ''INTEGER''))
                (addColumnIfNotExists drv ''requests'' ''is_response_body_text'' ''BOOLEAN'') =
               (if drv q then Inr (issue q (issue q (issue q (issue q tx0))))
                else Inl (Fatal ''Failed to query table info'', issue q tx0))"
    using h1 h2 h3 h4
    by (simp add: p andThen_def issue_tables tx0_def)
  have same: "db\<lparr>db_tables := db_tables db\<rparr> = db"
    by simp
  have u: "InitDB drv db =
     (if \<not> drv StmtOpen
      then \<lparr>ir_fatal = Some (Fatal ''Failed to open database''), ir_db = db,
            ir_trace = [StmtOpen], ir_log = []\<rparr>
      else if \<not> drv StmtCreateTable
      then \<lparr>ir_fatal = Some (Fatal ''Failed to create table''), ir_db = db,
            ir_trace = [StmtOpen, StmtCreateTable], ir_log = []\<rparr>
      else if \<not> drv StmtBegin
      then \<lparr>ir_fatal = Some (Fatal ''Failed to begin transaction for schema migration''),
            ir_db = db, ir_trace = [StmtOpen, StmtCreateTable, StmtBegin], ir_log = []\<rparr>
      else if \<not> drv q
      then \<lparr>ir_fatal = Some (Fatal ''Failed to query table info''), ir_db = db,
            ir_trace = tx_trace (issue q tx0), ir_log = tx_log (issue q tx0)\<rparr>
      else if \<not> drv StmtCommit
      then \<lparr>ir_fatal = Some (Fatal ''Failed to commit schema migration''), ir_db = db,
            ir_trace = tx_trace (issue q (issue q (issue q (issue q tx0)))) @ [StmtCommit],
            ir_log = tx_log (issue q (issue q (issue q (issue q tx0))))\<rparr>
      else \<lparr>ir_fatal = None, ir_db = db,
            ir_trace = tx_trace (issue q (issue q (issue q (issue q tx0))))
                       @ [StmtCommit, StmtPragmaWAL],
            ir_log = (if drv StmtPragmaWAL then tx_log (issue q (issue q (issue q (issue q tx0))))
                      else tx_log (issue q (issue q (issue q (issue q tx0)))) @ [LogWALFailed])
                     @ [LogDatabaseInitialized]\<rparr>)"
    unfolding InitDB_unfold c tx0_def [symmetric] chain
    by (simp add: same issue_tables tx0_def)
  show "ir_db (InitDB drv db) = db"
    unfolding u by simp
  show "filter isAlter (ir_trace (InitDB drv db)) = []"
    unfolding u by (simp add: issue_def tx0_def q_def)
  show "ir_log (InitDB drv db) = [] \<or> ir_log (InitDB drv db) = [LogDatabaseInitialized] \<or>
         ir_log (InitDB drv db) = [LogWALFailed, LogDatabaseInitialized]"
    unfolding u by (simp add: issue_def tx0_def)
qed

lemma InitDB_fatal_store:
  assumes "ir_fatal (InitDB drv db) \<noteq> None"
  shows "ir_db (InitDB drv db) = db \<or>
         ir_db (InitDB drv db) = db\<lparr>db_tables := createTable (db_tables db)\<rparr>"
  using assms unfolding InitDB_unfold
  by (simp split: if_splits sum.splits prod.splits)

text \<open>
  Claim C8. When a run of the startup migration has succeeded, a second run on the store
  it left, whatever the driver then answers, issues no \<open>ALTER TABLE\<close>, logs no added
  column and leaves the store exactly as it was. A call of \<open>addColumnIfNotExists\<close> for a
  column the table already has issues the \<open>PRAGMA table_info\<close> query and nothing else.
  In a successful run all statements of the additions lie between the one \<open>BEGIN\<close> and
  the one \<open>COMMIT\<close>; and a run that ends in a fatal error leaves on disk the store it
  found, at most with the table created, and none of the additions.
\<close>

theorem InitDB_idempotent:
  assumes "ir_fatal (InitDB drv db) = None"
  shows "ir_db (InitDB drv2 (ir_db (InitDB drv db))) = ir_db (InitDB drv db) \<and>
         filter isAlter (ir_trace (InitDB drv2 (ir_db (InitDB drv db)))) = [] \<and>
         LogAddedColumn c t \<notin> set (ir_log (InitDB drv2 (ir_db (InitDB drv db)))) \<and>
         (hasColumn (tx_tables tx) t c \<longrightarrow>
            (case addColumnIfNotExists drv2 t c ty tx of Inl (e, tx') \<Rightarrow> tx' | Inr tx' \<Rightarrow> tx')
              = issue (StmtTableInfo t) tx) \<and>
         (\<exists>mid. ir_trace (InitDB drv db) =
                  [StmtOpen, StmtCreateTable, StmtBegin] @ mid @ [StmtCommit, StmtPragmaWAL] \<and>
                list_all onTransaction mid) \<and>
         (ir_fatal (InitDB drv2 db') \<noteq> None \<longrightarrow>
            ir_db (InitDB drv2 db') = db' \<or>
            ir_db (InitDB drv2 db') = db'\<lparr>db_tables := createTable (db_tables db')\<rparr>)"
proof -
  from assms obtain tx1 :: Tx where
        d: "ir_db (InitDB drv db) = db\<lparr>db_tables := tx_tables tx1\<rparr>"
    and tr: "ir_trace (InitDB drv db) = tx_trace tx1 @ [StmtCommit, StmtPragmaWAL]"
    and mid: "\<exists>mid. tx_trace tx1 = [StmtOpen, StmtCreateTable, StmtBegin] @ mid \<and>
                     list_all onTransaction mid"
    and tbl: "tx_tables tx1 ''requests'' \<noteq> None"
    and h: "hasColumn (tx_tables tx1) ''requests'' ''request_body_size''"
           "hasColumn (tx_tables tx1) ''requests'' ''is_request_body_text''"
           "hasColumn (tx_tables tx1) ''requests'' ''response_body_size''"
           "hasColumn (tx_tables tx1) ''requests'' ''is_response_body_text''"
    by (rule InitDB_success)
  define db1 where "db1 = ir_db (InitDB drv db)"
  have t1: "db_tables db1 = tx_tables tx1"
    by (simp add: db1_def d)
  note second = InitDB_migrated [of db1 drv2, unfolded t1, OF tbl h]
  have a: "ir_db (InitDB drv2 db1) = db1"
    by (rule second(1))
  have b: "filter isAlter (ir_trace (InitDB drv2 db1)) = []"
    by (rule second(2))
  have c: "LogAddedColumn c t \<notin> set (ir_log (InitDB drv2 db1))"
    using second(3) by auto
  have e: "hasColumn (tx_tables tx) t c \<longrightarrow>
            (case addColumnIfNotExists drv2 t c ty tx of Inl (e, tx') \<Rightarrow> tx' | Inr tx' \<Rightarrow> tx')
              = issue (StmtTableInfo t) tx"
    by (simp add: addColumn_present)
  have f: "\<exists>mid. ir_trace (InitDB drv db) =
                  [StmtOpen, StmtCreateTable, StmtBegin] @ mid @ [StmtCommit, StmtPragmaWAL] \<and>
                list_all onTransaction mid"
    using mid tr by auto
  have g: "ir_fatal (InitDB drv2 db') \<noteq> None \<longrightarrow>
            ir_db (InitDB drv2 db') = db' \<or>
            ir_db (InitDB drv2 db') = db'\<lparr>db_tables := createTable (db_tables db')\<rparr>"
    using InitDB_fatal_store [of drv2 db'] by blast
  show ?thesis
    using a b c e f g unfolding db1_def by blast
qed

lemma InitDB_first_run:
  "ir_fatal (InitDB healthy emptyDatabase) = None \<and>
   filter isAlter (ir_trace (InitDB healthy emptyDatabase)) =
     [StmtAddColumn ''requests'' ''request_body_size'' ''INTEGER'',
      StmtAddColumn ''requests'' ''is_request_body_text'' ''BOOLEAN'',
      StmtAddColumn ''requests'' ''response_body_size'' ''INTEGER'',
      StmtAddColumn ''requests'' ''is_response_body_text'' ''BOOLEAN'']"
  by (simp add: InitDB_def healthy_def emptyDatabase_def createTable_def baseColumns_def
        addColumnIfNotExists_def andThen_def issue_def tableInfo_def Let_def)

theorem InitDB_idempotent_witness:
  "ir_fatal (InitDB healthy emptyDatabase) = None \<and>
   length (filter isAlter (ir_trace (InitDB healthy emptyDatabase))) = 4 \<and>
   ir_db (InitDB healthy (ir_db (InitDB healthy emptyDatabase))) =
     ir_db (InitDB healthy emptyDatabase) \<and>
   filter isAlter (ir_trace (InitDB healthy (ir_db (InitDB healthy emptyDatabase)))) = []"
proof -
  have a: "ir_fatal (InitDB healthy emptyDatabase) = None"
    using InitDB_first_run by blast
  have b: "length (filter isAlter (ir_trace (InitDB healthy emptyDatabase))) = 4"
    using InitDB_first_run by simp
  note t = InitDB_idempotent [OF a, of healthy]
  show ?thesis
    using a b t by blast
qed

section \<open>List query\<close>





















end
